theory Spec2Isabelle
  imports Main "HOL-Library.AList" "HOL-Library.Sublist"
begin

section \<open>Exceptions and the effect type\<close>

text \<open>
  The script \<^verbatim>\<open>backup_to_s3.py\<close> is a sequence of effects on the local file system,
  the clock, the remote bucket and standard output. Every Python exception that one of
  its statements can raise is a value of \<open>exn\<close>; all of them are instances of Python's
  \<^verbatim>\<open>Exception\<close>, so the clause \<^verbatim>\<open>except Exception\<close> matches each of them.
  \<open>OtherError\<close> stands for any further exception class of the S3 client
  (\<^verbatim>\<open>ClientError\<close>, \<^verbatim>\<open>S3UploadFailedError\<close>, \<^verbatim>\<open>EndpointConnectionError\<close>, ...),
  with its text.
\<close>

datatype exn =
    FileNotFoundError
  | PermissionError
  | NoCredentialsError
  | AttributeError
  | ValueError
  | OverflowError
  | OtherError string

section \<open>Naive datetimes\<close>

text \<open>
  \<^verbatim>\<open>datetime.now()\<close> and \<^verbatim>\<open>datetime.fromtimestamp(...)\<close> give naive datetimes:
  seven fields, compared as the tuple of the fields.
\<close>

record datetime =
  year :: nat
  month :: nat
  day :: nat
  hour :: nat
  minute :: nat
  second :: nat
  microsecond :: nat

fun tuple_lt :: "nat list \<Rightarrow> nat list \<Rightarrow> bool" where
  "tuple_lt [] [] = False"
| "tuple_lt [] (b # bs) = True"
| "tuple_lt (a # as) [] = False"
| "tuple_lt (a # as) (b # bs) = (a < b \<or> (a = b \<and> tuple_lt as bs))"

definition as_tuple :: "datetime \<Rightarrow> nat list" where
  "as_tuple d = [year d, month d, day d, hour d, minute d, second d, microsecond d]"

definition datetime_lt :: "datetime \<Rightarrow> datetime \<Rightarrow> bool" where
  "datetime_lt a b = tuple_lt (as_tuple a) (as_tuple b)"

text \<open>The calendar helpers of the \<^verbatim>\<open>datetime\<close> module (proleptic Gregorian ordinals).\<close>

definition is_leap :: "nat \<Rightarrow> bool" where
  "is_leap y = (y mod 4 = 0 \<and> (y mod 100 \<noteq> 0 \<or> y mod 400 = 0))"

definition DAYS_IN_MONTH :: "nat list" where
  "DAYS_IN_MONTH = [0, 31, 28, 31, 30, 31, 30, 31, 31, 30, 31, 30, 31]"

definition DAYS_BEFORE_MONTH :: "nat list" where
  "DAYS_BEFORE_MONTH = [0, 0, 31, 59, 90, 120, 151, 181, 212, 243, 273, 304, 334]"

definition days_before_year :: "nat \<Rightarrow> nat" where
  "days_before_year yr = (let y = yr - 1 in y * 365 + y div 4 - y div 100 + y div 400)"

definition days_in_month :: "nat \<Rightarrow> nat \<Rightarrow> nat" where
  "days_in_month y m = (if m = 2 \<and> is_leap y then 29 else DAYS_IN_MONTH ! m)"

definition days_before_month :: "nat \<Rightarrow> nat \<Rightarrow> nat" where
  "days_before_month y m = DAYS_BEFORE_MONTH ! m + (if m > 2 \<and> is_leap y then 1 else 0)"

definition ymd2ord :: "nat \<Rightarrow> nat \<Rightarrow> nat \<Rightarrow> nat" where
  "ymd2ord y m d = days_before_year y + days_before_month y m + d"

definition MAXORDINAL :: int where
  "MAXORDINAL = 3652059"

definition ord2ymd :: "nat \<Rightarrow> nat \<times> nat \<times> nat" where
  "ord2ymd n0 =
     (let n = n0 - 1;
          n400 = n div 146097; n = n mod 146097;
          n100 = n div 36524; n = n mod 36524;
          n4 = n div 1461; n = n mod 1461;
          n1 = n div 365; n = n mod 365;
          yr = n400 * 400 + 1 + n100 * 100 + n4 * 4 + n1
      in if n1 = 4 \<or> n100 = 4 then (yr - 1, 12, 31)
         else
           let leapyear = (n1 = 3 \<and> (n4 \<noteq> 24 \<or> n100 = 3));
               mo = (n + 50) div 32;
               preceding = DAYS_BEFORE_MONTH ! mo + (if mo > 2 \<and> leapyear then 1 else 0)
           in if preceding > n
              then (yr, mo - 1,
                    n - (preceding - (DAYS_IN_MONTH ! (mo - 1)
                                      + (if mo - 1 = 2 \<and> leapyear then 1 else 0))) + 1)
              else (yr, mo, n - preceding + 1))"

definition valid_datetime :: "datetime \<Rightarrow> bool" where
  "valid_datetime d =
     (1 \<le> year d \<and> year d \<le> 9999 \<and> 1 \<le> month d \<and> month d \<le> 12 \<and>
      1 \<le> day d \<and> day d \<le> days_in_month (year d) (month d) \<and>
      hour d < 24 \<and> minute d < 60 \<and> second d < 60 \<and> microsecond d < 1000000)"

text \<open>
  \<^verbatim>\<open>dt - timedelta(days=n)\<close>: the date moves through its ordinal, the time of day stays;
  a result outside years 1..9999 raises \<^verbatim>\<open>OverflowError\<close>.
\<close>

definition sub_days :: "datetime \<Rightarrow> int \<Rightarrow> exn + datetime" where
  "sub_days d n =
     (let days = int (ymd2ord (year d) (month d) (day d)) - n
      in if 0 < days \<and> days \<le> MAXORDINAL
         then (case ord2ymd (nat days) of
                 (y, m, dd) \<Rightarrow> Inr (d\<lparr>year := y, month := m, day := dd\<rparr>))
         else Inl OverflowError)"

subsection \<open>Formatting and parsing\<close>

definition DIGITS :: string where
  "DIGITS = ''0123456789''"

definition digit_char :: "nat \<Rightarrow> char" where
  "digit_char n = DIGITS ! n"

fun index_of :: "'a \<Rightarrow> 'a list \<Rightarrow> nat option" where
  "index_of x [] = None"
| "index_of x (y # ys) = (if x = y then Some 0 else map_option Suc (index_of x ys))"

definition digit_val :: "char \<Rightarrow> nat option" where
  "digit_val c = index_of c DIGITS"

text \<open>\<^verbatim>\<open>'%0kd' % n\<close> for a field of width \<open>k\<close>: the last \<open>k\<close> decimal digits cover every
  value a valid datetime holds in that field.\<close>

fun zpad :: "nat \<Rightarrow> nat \<Rightarrow> string" where
  "zpad 0 n = []"
| "zpad (Suc k) n = zpad k (n div 10) @ [digit_char (n mod 10)]"

text \<open>\<^verbatim>\<open>int(s)\<close> on a string of decimal digits; anything else is a \<^verbatim>\<open>ValueError\<close> (None).\<close>

fun parse_digits :: "nat \<Rightarrow> string \<Rightarrow> nat option" where
  "parse_digits acc [] = Some acc"
| "parse_digits acc (c # cs) =
     (case digit_val c of None \<Rightarrow> None | Some v \<Rightarrow> parse_digits (10 * acc + v) cs)"

definition parse_int :: "string \<Rightarrow> nat option" where
  "parse_int s = (if s = [] then None else parse_digits 0 s)"

definition isoformat :: "datetime \<Rightarrow> string" where
  "isoformat d =
     zpad 4 (year d) @ ''-'' @ zpad 2 (month d) @ ''-'' @ zpad 2 (day d) @ ''T'' @
     zpad 2 (hour d) @ '':'' @ zpad 2 (minute d) @ '':'' @ zpad 2 (second d) @
     (if microsecond d \<noteq> 0 then ''.'' @ zpad 6 (microsecond d) else [])"

text \<open>\<^verbatim>\<open>strftime('%Y%m%d_%H%M%S')\<close> and \<^verbatim>\<open>strftime('%Y-%m-%d')\<close>.\<close>

definition strftime_compact :: "datetime \<Rightarrow> string" where
  "strftime_compact d =
     zpad 4 (year d) @ zpad 2 (month d) @ zpad 2 (day d) @ ''_'' @
     zpad 2 (hour d) @ zpad 2 (minute d) @ zpad 2 (second d)"

definition strftime_date :: "datetime \<Rightarrow> string" where
  "strftime_date d = zpad 4 (year d) @ ''-'' @ zpad 2 (month d) @ ''-'' @ zpad 2 (day d)"

text \<open>
  \<^verbatim>\<open>datetime.fromisoformat\<close> on the grammar \<^verbatim>\<open>YYYY-MM-DD[*HH[:MM[:SS[.fff[fff]]]]]\<close>
  (\<^verbatim>\<open>*\<close> is any one character), which contains every output of \<^verbatim>\<open>isoformat()\<close> of a
  naive datetime. Anything else, or field values that are no date or time, raise
  \<^verbatim>\<open>ValueError\<close>. Strings with a UTC offset (which Python reads as aware datetimes) are
  outside this model and are treated as malformed.
\<close>

definition parse_date :: "string \<Rightarrow> (nat \<times> nat \<times> nat) option" where
  "parse_date s =
     (if length s = 10 \<and> s ! 4 = CHR ''-'' \<and> s ! 7 = CHR ''-''
      then (case (parse_int (take 4 s), parse_int (take 2 (drop 5 s)), parse_int (drop 8 s)) of
              (Some y, Some m, Some d) \<Rightarrow> Some (y, m, d)
            | _ \<Rightarrow> None)
      else None)"

definition parse_fraction :: "string \<Rightarrow> nat option" where
  "parse_fraction s =
     (if s = [] then Some 0
      else if hd s = CHR ''.'' \<and> length s = 7 then parse_int (tl s)
      else if hd s = CHR ''.'' \<and> length s = 4
           then (case parse_int (tl s) of None \<Rightarrow> None | Some v \<Rightarrow> Some (v * 1000))
      else None)"

definition parse_time :: "string \<Rightarrow> (nat \<times> nat \<times> nat \<times> nat) option" where
  "parse_time s =
     (if length s = 2
      then (case parse_int s of Some h \<Rightarrow> Some (h, 0, 0, 0) | None \<Rightarrow> None)
      else if length s = 5 \<and> s ! 2 = CHR '':''
      then (case (parse_int (take 2 s), parse_int (drop 3 s)) of
              (Some h, Some mi) \<Rightarrow> Some (h, mi, 0, 0)
            | _ \<Rightarrow> None)
      else if length s \<ge> 8 \<and> s ! 2 = CHR '':'' \<and> s ! 5 = CHR '':''
      then (case (parse_int (take 2 s), parse_int (take 2 (drop 3 s)),
                  parse_int (take 2 (drop 6 s)), parse_fraction (drop 8 s)) of
              (Some h, Some mi, Some sec, Some us) \<Rightarrow> Some (h, mi, sec, us)
            | _ \<Rightarrow> None)
      else None)"

definition fromisoformat :: "string \<Rightarrow> exn + datetime" where
  "fromisoformat s =
     (case parse_date (take 10 s) of
        None \<Rightarrow> Inl ValueError
      | Some (y, m, d) \<Rightarrow>
          (case (if drop 11 s = [] then Some (0, 0, 0, 0) else parse_time (drop 11 s)) of
             None \<Rightarrow> Inl ValueError
           | Some (h, mi, sec, us) \<Rightarrow>
               (let dt = \<lparr>year = y, month = m, day = d, hour = h, minute = mi,
                          second = sec, microsecond = us\<rparr>
                in if valid_datetime dt then Inr dt else Inl ValueError)))"

text \<open>\<^verbatim>\<open>str.strip()\<close>: leading and trailing whitespace is dropped.\<close>

definition is_space :: "char \<Rightarrow> bool" where
  "is_space c = ((of_char c :: nat) \<in> {9, 10, 11, 12, 13, 28, 29, 30, 31, 32, 133, 160})"

definition strip :: "string \<Rightarrow> string" where
  "strip s = rev (dropWhile is_space (rev (dropWhile is_space s)))"

section \<open>Paths and the file system\<close>

text \<open>
  A path is the list of its components; \<^verbatim>\<open>os.path.join(root, file)\<close> appends one.
  The file system maps each path to what is there, in directory-listing order. The empty
  path is the root above the drives and is always a directory. A regular file holds its
  modification time, as the naive local datetime that
  \<^verbatim>\<open>datetime.fromtimestamp(os.path.getmtime(p))\<close> gives for it, and its content: text, or
  a zip archive as the list of its members, each the archive name and what was stored
  under it.
\<close>

type_synonym path = "string list"

datatype fdata = Text string | Archive "(path \<times> entry) list"
  and entry = Directory | RegularFile datetime fdata

type_synonym filesystem = "(path \<times> entry) list"

definition S3_BUCKET :: string where
  "S3_BUCKET = ''your_s3_bucket_name''"

definition SERVER_NAME :: string where
  "SERVER_NAME = ''your_server_name''"

definition LOCAL_DIR :: path where
  "LOCAL_DIR = [''C:'', ''path'', ''to'', ''your'', ''config_files'']"

definition BACKUP_DIR :: path where
  "BACKUP_DIR = [''C:'', ''path'', ''to'', ''backup'']"

definition LOG_FILE :: path where
  "LOG_FILE = [''C:'', ''path'', ''to'', ''backup'', ''backup_log.txt'']"

definition RETENTION_DAYS :: int where
  "RETENTION_DAYS = 15"

definition os_path_join :: "path \<Rightarrow> string \<Rightarrow> path" where
  "os_path_join p name = p @ [name]"

text \<open>\<^verbatim>\<open>os.path.relpath(path, start)\<close> on component lists: one \<^verbatim>\<open>..\<close> for each component of
  \<open>start\<close> after the common prefix, then the rest of \<open>path\<close>; \<^verbatim>\<open>.\<close> when nothing is left.\<close>

fun common_len :: "path \<Rightarrow> path \<Rightarrow> nat" where
  "common_len (a # as) (b # bs) = (if a = b then Suc (common_len as bs) else 0)"
| "common_len _ _ = 0"

definition os_path_relpath :: "path \<Rightarrow> path \<Rightarrow> path" where
  "os_path_relpath p start =
     (let i = common_len start p;
          rel_list = replicate (length start - i) ''..'' @ drop i p
      in if rel_list = [] then [''.''] else rel_list)"

definition is_dir :: "filesystem \<Rightarrow> path \<Rightarrow> bool" where
  "is_dir f p = (p = [] \<or> map_of f p = Some Directory)"

definition exists_path :: "filesystem \<Rightarrow> path \<Rightarrow> bool" where
  "exists_path f p = (p = [] \<or> map_of f p \<noteq> None)"

text \<open>The paths that the two nested loops over \<^verbatim>\<open>os.walk(source_dir)\<close> visit: every
  regular file below \<open>source_dir\<close>, once; nothing when \<open>source_dir\<close> is no directory.\<close>

definition walk_files :: "filesystem \<Rightarrow> path \<Rightarrow> path list" where
  "walk_files f source_dir =
     (if is_dir f source_dir
      then map fst (filter (\<lambda>(p, e). e \<noteq> Directory \<and> strict_prefix source_dir p) f)
      else [])"

fun prefixes_of :: "path \<Rightarrow> path list" where
  "prefixes_of [] = []"
| "prefixes_of (c # cs) = [c] # map ((#) c) (prefixes_of cs)"

section \<open>The world the script runs in\<close>

text \<open>Lines printed to standard output, one constructor for each \<^verbatim>\<open>print\<close> of the script.\<close>

datatype msg =
    MsgLastRunTime datetime
  | MsgNoNewFiles
  | MsgZipping nat path
  | MsgUploading path
  | MsgUploaded path string string
  | MsgFileNotFound path
  | MsgNoCredentials
  | MsgErrorUploading path exn
  | MsgDeletingZip path
  | MsgDeletingOlder int
  | MsgDeletedOld path
  | MsgCompleted

text \<open>A log of the calls made during a run: the script's own functions on entry, and the
  library calls with an effect outside the process.\<close>

datatype call =
    GetLastRunTime
  | GetNewFiles path
  | OsMakedirs path
  | CreateZip "path list" path
  | UploadToS3 path string string
  | S3UploadFile path string string
  | OsRemove path
  | DeleteOldFiles path int
  | UpdateLastRunTime

text \<open>
  \<open>clock w n\<close> is what the \<open>n\<close>-th call of \<^verbatim>\<open>datetime.now()\<close> returns, \<open>ticks\<close> counts the
  calls made. \<open>s3\<close> maps (bucket, key) to the stored object. Three fields describe the
  interpreter and the network, which the script does not control:
  \<open>shutil_ZipFile\<close> says whether the module \<^verbatim>\<open>shutil\<close> has an attribute \<^verbatim>\<open>ZipFile\<close> that is
  a zip archive writer (the script never imports \<^verbatim>\<open>zipfile\<close>). The module of the standard
  library has none, so the field is \<open>False\<close> in every run of the script as it stands; it is
  kept so that what is proved of the steps after \<^verbatim>\<open>create_zip\<close> says something of their code;
  \<open>client_fault\<close> is what \<^verbatim>\<open>boto3.client('s3')\<close> raises, if anything;
  \<open>upload_fault\<close> is what \<^verbatim>\<open>upload_file\<close> raises for a file that exists, if anything.
\<close>

record world =
  fs :: filesystem
  s3 :: "((string \<times> string) \<times> fdata) list"
  clock :: "nat \<Rightarrow> datetime"
  ticks :: nat
  stdout :: "msg list"
  calls :: "call list"
  shutil_ZipFile :: bool
  client_fault :: "exn option"
  upload_fault :: "exn option"

type_synonym 'a py = "world \<Rightarrow> (exn + 'a) \<times> world"

definition py_return :: "'a \<Rightarrow> 'a py" where
  "py_return a w = (Inr a, w)"

definition py_raise :: "exn \<Rightarrow> 'a py" where
  "py_raise e w = (Inl e, w)"

definition py_bind :: "'a py \<Rightarrow> ('a \<Rightarrow> 'b py) \<Rightarrow> 'b py" where
  "py_bind m f w = (case m w of (Inl e, w') \<Rightarrow> (Inl e, w') | (Inr a, w') \<Rightarrow> f a w')"

definition py_try :: "'a py \<Rightarrow> (exn \<Rightarrow> 'a py) \<Rightarrow> 'a py" where
  "py_try m h w = (case m w of (Inl e, w') \<Rightarrow> h e w' | (Inr a, w') \<Rightarrow> (Inr a, w'))"

definition py_lift :: "exn + 'a \<Rightarrow> 'a py" where
  "py_lift r w = (r, w)"

definition print :: "msg \<Rightarrow> unit py" where
  "print m w = (Inr (), w\<lparr>stdout := stdout w @ [m]\<rparr>)"

definition log_call :: "call \<Rightarrow> unit py" where
  "log_call c w = (Inr (), w\<lparr>calls := calls w @ [c]\<rparr>)"

definition datetime_now :: "datetime py" where
  "datetime_now w = (Inr (clock w (ticks w)), w\<lparr>ticks := Suc (ticks w)\<rparr>)"

subsection \<open>File operations\<close>

definition os_path_exists :: "path \<Rightarrow> bool py" where
  "os_path_exists p w = (Inr (exists_path (fs w) p), w)"

text \<open>\<^verbatim>\<open>os.path.getmtime\<close> followed by \<^verbatim>\<open>datetime.fromtimestamp\<close>. The script calls it on
  the regular files that \<^verbatim>\<open>os.walk\<close> lists; the times of directories are not modelled.\<close>

definition getmtime :: "path \<Rightarrow> datetime py" where
  "getmtime p w =
     (case map_of (fs w) p of
        Some (RegularFile m d) \<Rightarrow> (Inr m, w)
      | _ \<Rightarrow> (Inl FileNotFoundError, w))"

definition read_file :: "path \<Rightarrow> fdata py" where
  "read_file p w =
     (case map_of (fs w) p of
        Some (RegularFile m d) \<Rightarrow> (Inr d, w)
      | Some Directory \<Rightarrow> (Inl PermissionError, w)
      | None \<Rightarrow> (Inl FileNotFoundError, w))"

text \<open>Writing \<open>d\<close> to the file at \<open>p\<close> (created or replaced): the parent must be a
  directory and \<open>p\<close> itself must not be one.\<close>

definition write_file :: "path \<Rightarrow> fdata \<Rightarrow> unit py" where
  "write_file p d w =
     (if p = [] \<or> map_of (fs w) p = Some Directory then (Inl PermissionError, w)
      else if \<not> is_dir (fs w) (butlast p) then (Inl FileNotFoundError, w)
      else (Inr (), w\<lparr>fs := AList.update p (RegularFile (clock w (ticks w)) d) (fs w)\<rparr>))"

definition os_remove :: "path \<Rightarrow> unit py" where
  "os_remove p w =
     (case map_of (fs w) p of
        Some (RegularFile m d) \<Rightarrow>
          (Inr (), w\<lparr>fs := AList.delete p (fs w), calls := calls w @ [OsRemove p]\<rparr>)
      | Some Directory \<Rightarrow> (Inl PermissionError, w\<lparr>calls := calls w @ [OsRemove p]\<rparr>)
      | None \<Rightarrow> (Inl FileNotFoundError, w\<lparr>calls := calls w @ [OsRemove p]\<rparr>))"

text \<open>\<^verbatim>\<open>os.makedirs(p)\<close>: every missing directory on the way to \<open>p\<close> is created; a regular
  file on the way makes the path unreachable.\<close>

fun mkdir_all :: "path list \<Rightarrow> filesystem \<Rightarrow> exn + filesystem" where
  "mkdir_all [] f = Inr f"
| "mkdir_all (q # qs) f =
     (case map_of f q of
        None \<Rightarrow> mkdir_all qs (AList.update q Directory f)
      | Some Directory \<Rightarrow> mkdir_all qs f
      | Some (RegularFile m d) \<Rightarrow> Inl FileNotFoundError)"

definition os_makedirs :: "path \<Rightarrow> unit py" where
  "os_makedirs p w =
     (case mkdir_all (prefixes_of p) (fs w) of
        Inl e \<Rightarrow> (Inl e, w\<lparr>calls := calls w @ [OsMakedirs p]\<rparr>)
      | Inr f \<Rightarrow> (Inr (), w\<lparr>fs := f, calls := calls w @ [OsMakedirs p]\<rparr>))"

section \<open>The script\<close>

subsection \<open>\<^verbatim>\<open>get_last_run_time\<close> and \<^verbatim>\<open>update_last_run_time\<close>\<close>

text \<open>The marker is read as text; a file that is no text cannot be decoded to an ISO
  string, which is a \<^verbatim>\<open>ValueError\<close> as well.\<close>

definition read_text :: "path \<Rightarrow> string py" where
  "read_text p =
     py_bind (read_file p) (\<lambda>d. case d of Text s \<Rightarrow> py_return s
                                  | Archive ms \<Rightarrow> py_raise ValueError)"

definition get_last_run_time :: "datetime py" where
  "get_last_run_time =
     py_bind (log_call GetLastRunTime) (\<lambda>_.
     py_bind (os_path_exists LOG_FILE) (\<lambda>ex.
       if ex then py_bind (read_text LOG_FILE) (\<lambda>s. py_lift (fromisoformat (strip s)))
       else py_bind datetime_now (\<lambda>now. py_lift (sub_days now 30))))"

text \<open>\<^verbatim>\<open>open(LOG_FILE, "w")\<close> creates or empties the file, then the time is read and
  written.\<close>

definition update_last_run_time :: "unit py" where
  "update_last_run_time =
     py_bind (log_call UpdateLastRunTime) (\<lambda>_.
     py_bind (write_file LOG_FILE (Text [])) (\<lambda>_.
     py_bind datetime_now (\<lambda>now.
     write_file LOG_FILE (Text (isoformat now)))))"

subsection \<open>\<^verbatim>\<open>get_new_files\<close>\<close>

fun new_files_loop :: "datetime \<Rightarrow> path list \<Rightarrow> path list \<Rightarrow> path list py" where
  "new_files_loop last_run_time [] new_files = py_return new_files"
| "new_files_loop last_run_time (file_path # rest) new_files =
     py_bind (getmtime file_path) (\<lambda>m.
       new_files_loop last_run_time rest
         (if datetime_lt last_run_time m then new_files @ [file_path] else new_files))"

definition get_new_files :: "path \<Rightarrow> datetime \<Rightarrow> path list py" where
  "get_new_files source_dir last_run_time =
     py_bind (log_call (GetNewFiles source_dir)) (\<lambda>_.
     (\<lambda>w. new_files_loop last_run_time (walk_files (fs w) source_dir) [] w))"

subsection \<open>\<^verbatim>\<open>create_zip\<close>\<close>

text \<open>
  \<^verbatim>\<open>zipf.write(file, arcname)\<close> for each file of the list, in order: what is at \<open>file\<close> is
  stored under its path relative to \<open>LOCAL_DIR\<close>. The first file that is missing stops the
  loop with its exception; the members written so far stay in the archive.
\<close>

fun zip_write_all ::
  "filesystem \<Rightarrow> path list \<Rightarrow> (path \<times> entry) list \<Rightarrow> exn option \<times> (path \<times> entry) list" where
  "zip_write_all f [] members = (None, members)"
| "zip_write_all f (file # rest) members =
     (case map_of f file of
        None \<Rightarrow> (Some FileNotFoundError, members)
      | Some e \<Rightarrow> zip_write_all f rest (members @ [(os_path_relpath file LOCAL_DIR, e)]))"

text \<open>
  The expression \<^verbatim>\<open>shutil.ZipFile\<close> is evaluated first: where \<^verbatim>\<open>shutil\<close> has no such
  attribute it raises \<^verbatim>\<open>AttributeError\<close> before any file is touched. Otherwise the
  archive is opened for writing (an empty archive is on disk from then on), the files are
  added, and leaving the \<^verbatim>\<open>with\<close> block closes the archive, also on an exception.
\<close>

definition create_zip :: "path list \<Rightarrow> path \<Rightarrow> unit py" where
  "create_zip file_list zip_file_path =
     py_bind (log_call (CreateZip file_list zip_file_path)) (\<lambda>_.
     py_bind (\<lambda>w. if shutil_ZipFile w then (Inr (), w) else (Inl AttributeError, w)) (\<lambda>_.
     py_bind (write_file zip_file_path (Archive [])) (\<lambda>_.
     (\<lambda>w. case zip_write_all (fs w) file_list [] of
             (r, members) \<Rightarrow>
               py_bind (write_file zip_file_path (Archive members)) (\<lambda>_.
                 case r of None \<Rightarrow> py_return () | Some e \<Rightarrow> py_raise e) w))))"

subsection \<open>\<^verbatim>\<open>upload_to_s3\<close>\<close>

definition boto3_client_s3 :: "unit py" where
  "boto3_client_s3 w = (case client_fault w of None \<Rightarrow> (Inr (), w) | Some e \<Rightarrow> (Inl e, w))"

text \<open>\<^verbatim>\<open>s3_client.upload_file\<close>: a local file that is missing raises
  \<^verbatim>\<open>FileNotFoundError\<close>; otherwise the transfer either fails with \<open>upload_fault\<close> or
  stores the file's content under (bucket, key).\<close>

definition s3_upload_file :: "path \<Rightarrow> string \<Rightarrow> string \<Rightarrow> unit py" where
  "s3_upload_file file_path bucket_name object_name =
     py_bind (log_call (S3UploadFile file_path bucket_name object_name)) (\<lambda>_.
     (\<lambda>w. case map_of (fs w) file_path of
             Some (RegularFile m d) \<Rightarrow>
               (case upload_fault w of
                  Some e \<Rightarrow> (Inl e, w)
                | None \<Rightarrow> (Inr (), w\<lparr>s3 := AList.update (bucket_name, object_name) d (s3 w)\<rparr>))
           | _ \<Rightarrow> (Inl FileNotFoundError, w)))"

definition upload_to_s3 :: "path \<Rightarrow> string \<Rightarrow> string \<Rightarrow> unit py" where
  "upload_to_s3 file_path bucket_name object_name =
     py_bind (log_call (UploadToS3 file_path bucket_name object_name)) (\<lambda>_.
     py_bind boto3_client_s3 (\<lambda>_.
     py_try
       (py_bind (s3_upload_file file_path bucket_name object_name) (\<lambda>_.
        print (MsgUploaded file_path bucket_name object_name)))
       (\<lambda>e. if e = FileNotFoundError then print (MsgFileNotFound file_path)
            else if e = NoCredentialsError then print MsgNoCredentials
            else print (MsgErrorUploading file_path e))))"

subsection \<open>\<^verbatim>\<open>delete_old_files\<close>\<close>

fun delete_loop :: "datetime \<Rightarrow> path list \<Rightarrow> unit py" where
  "delete_loop cutoff_time [] = py_return ()"
| "delete_loop cutoff_time (file_path # rest) =
     py_bind (getmtime file_path) (\<lambda>file_mod_time.
     py_bind (if datetime_lt file_mod_time cutoff_time
              then py_bind (os_remove file_path) (\<lambda>_. print (MsgDeletedOld file_path))
              else py_return ()) (\<lambda>_.
     delete_loop cutoff_time rest))"

definition delete_old_files :: "path \<Rightarrow> int \<Rightarrow> unit py" where
  "delete_old_files source_dir retention_days =
     py_bind (log_call (DeleteOldFiles source_dir retention_days)) (\<lambda>_.
     py_bind datetime_now (\<lambda>now.
     py_bind (py_lift (sub_days now retention_days)) (\<lambda>cutoff_time.
     (\<lambda>w. delete_loop cutoff_time (walk_files (fs w) source_dir) w))))"

subsection \<open>\<^verbatim>\<open>main\<close>\<close>

definition zip_name :: "datetime \<Rightarrow> string" where
  "zip_name t = ''backup_'' @ strftime_compact t @ ''.zip''"

definition object_key :: "datetime \<Rightarrow> string \<Rightarrow> string" where
  "object_key t zip_file_name = SERVER_NAME @ ''/'' @ strftime_date t @ ''/'' @ zip_file_name"

definition main :: "unit py" where
  "main =
     py_bind get_last_run_time (\<lambda>last_run_time.
     py_bind (print (MsgLastRunTime last_run_time)) (\<lambda>_.
     py_bind (get_new_files LOCAL_DIR last_run_time) (\<lambda>new_files.
     py_bind
       (if new_files = [] then print MsgNoNewFiles
        else
          py_bind (os_path_exists BACKUP_DIR) (\<lambda>ex.
          py_bind (if \<not> ex then os_makedirs BACKUP_DIR else py_return ()) (\<lambda>_.
          py_bind datetime_now (\<lambda>t1.
          py_bind (print (MsgZipping (length new_files)
                            (os_path_join BACKUP_DIR (zip_name t1)))) (\<lambda>_.
          py_bind (create_zip new_files (os_path_join BACKUP_DIR (zip_name t1))) (\<lambda>_.
          py_bind datetime_now (\<lambda>t2.
          py_bind (print (MsgUploading (os_path_join BACKUP_DIR (zip_name t1)))) (\<lambda>_.
          py_bind (upload_to_s3 (os_path_join BACKUP_DIR (zip_name t1)) S3_BUCKET
                     (object_key t2 (zip_name t1))) (\<lambda>_.
          py_bind (print (MsgDeletingZip (os_path_join BACKUP_DIR (zip_name t1)))) (\<lambda>_.
          os_remove (os_path_join BACKUP_DIR (zip_name t1))))))))))))
       (\<lambda>_.
     py_bind (print (MsgDeletingOlder RETENTION_DAYS)) (\<lambda>_.
     py_bind (delete_old_files LOCAL_DIR RETENTION_DAYS) (\<lambda>_.
     py_bind update_last_run_time (\<lambda>_.
     print MsgCompleted)))))))"

section \<open>Notions used to state the properties\<close>

text \<open>The modification time of the regular file at a path, if there is one.\<close>

definition file_mtime :: "filesystem \<Rightarrow> path \<Rightarrow> datetime option" where
  "file_mtime f p = (case map_of f p of Some (RegularFile m d) \<Rightarrow> Some m | _ \<Rightarrow> None)"

text \<open>A file that the pruning loop removes: its modification time is before the cutoff.\<close>

definition is_old :: "filesystem \<Rightarrow> datetime \<Rightarrow> path \<Rightarrow> bool" where
  "is_old f cutoff p = (case file_mtime f p of Some m \<Rightarrow> datetime_lt m cutoff | None \<Rightarrow> False)"

text \<open>The line that \<^verbatim>\<open>upload_to_s3\<close> prints for each outcome of the transfer.\<close>

definition upload_report :: "path \<Rightarrow> string \<Rightarrow> string \<Rightarrow> exn option \<Rightarrow> msg" where
  "upload_report p b k fault =
     (case fault of
        None \<Rightarrow> MsgUploaded p b k
      | Some e \<Rightarrow> if e = FileNotFoundError then MsgFileNotFound p
                  else if e = NoCredentialsError then MsgNoCredentials
                  else MsgErrorUploading p e)"

text \<open>
  The steps of a run, as they show in the call log: the entry into each of the script's
  functions, and the transfer itself (the call of \<^verbatim>\<open>upload_file\<close>) inside the upload step.
  \<open>run_order\<close> is the order in which \<^verbatim>\<open>main\<close> lists them.
\<close>

datatype step =
  ReadMarker | Enumerate | CreateArchive | Upload | Transfer | Prune | UpdateMarker

fun step_of :: "call \<Rightarrow> step option" where
  "step_of GetLastRunTime = Some ReadMarker"
| "step_of (GetNewFiles d) = Some Enumerate"
| "step_of (CreateZip fl zp) = Some CreateArchive"
| "step_of (UploadToS3 p b k) = Some Upload"
| "step_of (S3UploadFile p b k) = Some Transfer"
| "step_of (DeleteOldFiles d n) = Some Prune"
| "step_of UpdateLastRunTime = Some UpdateMarker"
| "step_of (OsMakedirs p) = None"
| "step_of (OsRemove p) = None"

fun steps_of :: "call list \<Rightarrow> step list" where
  "steps_of [] = []"
| "steps_of (c # cs) = (case step_of c of None \<Rightarrow> steps_of cs | Some s \<Rightarrow> s # steps_of cs)"

definition run_order :: "step list" where
  "run_order = [ReadMarker, Enumerate, CreateArchive, Upload, Transfer, Prune, UpdateMarker]"

text \<open>A program whose every run appends to the call log a list with property \<open>P\<close>.\<close>

definition emits :: "(call list \<Rightarrow> bool) \<Rightarrow> 'a py \<Rightarrow> bool" where
  "emits P m = (\<forall>w. \<exists>cs. calls (snd (m w)) = calls w @ cs \<and> P cs)"

text \<open>The steps in a list of calls are among those numbered \<open>i\<close> to \<open>j - 1\<close>, in order.\<close>

definition seg :: "nat \<Rightarrow> nat \<Rightarrow> call list \<Rightarrow> bool" where
  "seg i j cs = subseq (steps_of cs) (drop i (take j run_order))"

text \<open>The two halves of \<^verbatim>\<open>main\<close> after the selection, named for the proofs: the branch
  taken when there are new files (steps 3 to 5 of the script), and steps 6 and 7.\<close>

definition backup_steps :: "path list \<Rightarrow> unit py" where
  "backup_steps new_files =
     py_bind (os_path_exists BACKUP_DIR) (\<lambda>ex.
     py_bind (if \<not> ex then os_makedirs BACKUP_DIR else py_return ()) (\<lambda>_.
     py_bind datetime_now (\<lambda>t1.
     py_bind (print (MsgZipping (length new_files)
                       (os_path_join BACKUP_DIR (zip_name t1)))) (\<lambda>_.
     py_bind (create_zip new_files (os_path_join BACKUP_DIR (zip_name t1))) (\<lambda>_.
     py_bind datetime_now (\<lambda>t2.
     py_bind (print (MsgUploading (os_path_join BACKUP_DIR (zip_name t1)))) (\<lambda>_.
     py_bind (upload_to_s3 (os_path_join BACKUP_DIR (zip_name t1)) S3_BUCKET
                (object_key t2 (zip_name t1))) (\<lambda>_.
     py_bind (print (MsgDeletingZip (os_path_join BACKUP_DIR (zip_name t1)))) (\<lambda>_.
     os_remove (os_path_join BACKUP_DIR (zip_name t1)))))))))))"

definition finish_steps :: "unit py" where
  "finish_steps =
     py_bind (print (MsgDeletingOlder RETENTION_DAYS)) (\<lambda>_.
     py_bind (delete_old_files LOCAL_DIR RETENTION_DAYS) (\<lambda>_.
     py_bind update_last_run_time (\<lambda>_.
     print MsgCompleted)))"

subsection \<open>Sample worlds\<close>

definition t_run :: datetime where
  "t_run = \<lparr>year = 2024, month = 3, day = 10, hour = 1, minute = 2, second = 3,
            microsecond = 0\<rparr>"

definition t_marker :: datetime where
  "t_marker = \<lparr>year = 2024, month = 3, day = 1, hour = 12, minute = 0, second = 0,
               microsecond = 0\<rparr>"

definition t_new_file :: datetime where
  "t_new_file = \<lparr>year = 2024, month = 3, day = 5, hour = 9, minute = 15, second = 0,
                 microsecond = 250000\<rparr>"

definition t_old_file :: datetime where
  "t_old_file = \<lparr>year = 2024, month = 1, day = 5, hour = 8, minute = 30, second = 0,
                 microsecond = 0\<rparr>"

definition ex_clock :: "nat \<Rightarrow> datetime" where
  "ex_clock n = t_run\<lparr>second := min (3 + n) 59\<rparr>"

definition ex_tree :: filesystem where
  "ex_tree =
     [([''C:''], Directory),
      ([''C:'', ''path''], Directory),
      ([''C:'', ''path'', ''to''], Directory),
      ([''C:'', ''path'', ''to'', ''your''], Directory),
      ([''C:'', ''path'', ''to'', ''your'', ''config_files''], Directory),
      ([''C:'', ''path'', ''to'', ''your'', ''config_files'', ''app.cfg''],
         RegularFile t_new_file (Text ''port=80'')),
      ([''C:'', ''path'', ''to'', ''your'', ''config_files'', ''old''], Directory),
      ([''C:'', ''path'', ''to'', ''your'', ''config_files'', ''old'', ''legacy.cfg''],
         RegularFile t_old_file (Text ''port=8080''))]"

text \<open>A machine that has run the script before: the backup directory and the marker exist.\<close>

definition ex_fs :: filesystem where
  "ex_fs = ex_tree @
     [([''C:'', ''path'', ''to'', ''backup''], Directory),
      ([''C:'', ''path'', ''to'', ''backup'', ''backup_log.txt''],
         RegularFile t_marker (Text ''2024-03-01T12:00:00''))]"

definition ex_world :: world where
  "ex_world = \<lparr>fs = ex_fs, s3 = [], clock = ex_clock, ticks = 0, stdout = [], calls = [],
                shutil_ZipFile = False, client_fault = None, upload_fault = None\<rparr>"

text \<open>A machine on which the script has never run: no backup directory, no marker.\<close>

definition ex_first_run :: world where
  "ex_first_run = ex_world\<lparr>fs := ex_tree\<rparr>"

definition t_cutoff :: datetime where
  "t_cutoff = \<lparr>year = 2024, month = 2, day = 24, hour = 1, minute = 2, second = 3,
               microsecond = 0\<rparr>"

definition t_default :: datetime where
  "t_default = \<lparr>year = 2024, month = 2, day = 9, hour = 1, minute = 2, second = 3,
                microsecond = 0\<rparr>"

text \<open>A world that no run of the script as it stands starts in: the same machine without
  AWS credentials, and with a module \<^verbatim>\<open>shutil\<close> to which an archive writer \<^verbatim>\<open>ZipFile\<close> has
  been added. It is used only to show that the hypotheses of the statement on upload
  failures can be met.\<close>

definition ex_zipfile_added :: world where
  "ex_zipfile_added = ex_world\<lparr>shutil_ZipFile := True, upload_fault := Some NoCredentialsError\<rparr>"

text \<open>The same machine after a run on 9 March: no file is newer than the marker.\<close>

definition ex_no_changes :: world where
  "ex_no_changes = ex_world\<lparr>fs := ex_tree @
     [([''C:'', ''path'', ''to'', ''backup''], Directory),
      ([''C:'', ''path'', ''to'', ''backup'', ''backup_log.txt''],
         RegularFile t_marker (Text ''2024-03-09T00:00:00''))]\<rparr>"

definition t_recent :: datetime where
  "t_recent = \<lparr>year = 2024, month = 3, day = 9, hour = 0, minute = 0, second = 0,
               microsecond = 0\<rparr>"

definition ex_tree_pruned :: filesystem where
  "ex_tree_pruned =
     [([''C:''], Directory),
      ([''C:'', ''path''], Directory),
      ([''C:'', ''path'', ''to''], Directory),
      ([''C:'', ''path'', ''to'', ''your''], Directory),
      ([''C:'', ''path'', ''to'', ''your'', ''config_files''], Directory),
      ([''C:'', ''path'', ''to'', ''your'', ''config_files'', ''app.cfg''],
         RegularFile t_new_file (Text ''port=80'')),
      ([''C:'', ''path'', ''to'', ''your'', ''config_files'', ''old''], Directory)]"

definition ex_zip :: path where
  "ex_zip = [''C:'', ''path'', ''to'', ''backup'', ''backup_20240310_010203.zip'']"

definition ex_key :: string where
  "ex_key = ''your_server_name/2024-03-10/backup_20240310_010203.zip''"

section \<open>Basic facts\<close>

lemmas py_defs = py_bind_def py_return_def py_raise_def py_try_def py_lift_def print_def
  log_call_def datetime_now_def os_path_exists_def getmtime_def read_file_def write_file_def
  os_remove_def os_makedirs_def read_text_def boto3_client_s3_def s3_upload_file_def

lemmas const_defs = LOCAL_DIR_def BACKUP_DIR_def LOG_FILE_def RETENTION_DAYS_def S3_BUCKET_def
  SERVER_NAME_def os_path_join_def

lemmas fs_defs = is_dir_def exists_path_def walk_files_def os_path_relpath_def file_mtime_def

lemmas ex_defs = ex_world_def ex_fs_def ex_tree_def ex_clock_def t_run_def t_marker_def
  t_new_file_def t_old_file_def ex_first_run_def t_default_def t_cutoff_def

lemmas cal_defs = sub_days_def ymd2ord_def ord2ymd_def days_before_year_def
  days_before_month_def DAYS_BEFORE_MONTH_def DAYS_IN_MONTH_def days_in_month_def is_leap_def
  MAXORDINAL_def Let_def datetime_lt_def as_tuple_def valid_datetime_def


lemma walk_files_regular:
  assumes "distinct (map fst f)" and "p \<in> set (walk_files f src)"
  shows "\<exists>m d. map_of f p = Some (RegularFile m d)"
proof -
  from assms(2) obtain e where e: "(p, e) \<in> set f" "e \<noteq> Directory"
    by (auto simp: walk_files_def split: if_splits)
  with assms(1) have "map_of f p = Some e" by simp
  with e show ?thesis by (cases e) auto
qed

lemma walk_files_iff:
  assumes "distinct (map fst f)"
  shows "p \<in> set (walk_files f src) \<longleftrightarrow>
         (is_dir f src \<and> strict_prefix src p \<and> (\<exists>m. file_mtime f p = Some m))"
proof
  assume p: "p \<in> set (walk_files f src)"
  then obtain m d where "map_of f p = Some (RegularFile m d)"
    using walk_files_regular[OF assms] by blast
  then have "file_mtime f p = Some m" by (simp add: file_mtime_def)
  with p show "is_dir f src \<and> strict_prefix src p \<and> (\<exists>m. file_mtime f p = Some m)"
    by (auto simp: walk_files_def split: if_splits)
next
  assume a: "is_dir f src \<and> strict_prefix src p \<and> (\<exists>m. file_mtime f p = Some m)"
  then obtain m d where "map_of f p = Some (RegularFile m d)"
    by (auto simp: file_mtime_def split: option.splits entry.splits)
  then have "(p, RegularFile m d) \<in> set f" by (rule map_of_SomeD)
  with a show "p \<in> set (walk_files f src)"
    by (force simp: walk_files_def)
qed

lemma new_files_loop_eq:
  assumes "\<forall>p \<in> set ps. \<exists>m d. map_of (fs w) p = Some (RegularFile m d)"
  shows "new_files_loop t0 ps acc w =
     (Inr (acc @ filter (\<lambda>p. \<exists>m. file_mtime (fs w) p = Some m \<and> datetime_lt t0 m) ps), w)"
  using assms
proof (induction ps arbitrary: acc)
  case Nil
  then show ?case by (simp add: py_return_def)
next
  case (Cons p ps)
  then obtain m d where m: "map_of (fs w) p = Some (RegularFile m d)" by auto
  have g: "getmtime p w = (Inr m, w)" by (simp add: getmtime_def m)
  have fm: "file_mtime (fs w) p = Some m" by (simp add: file_mtime_def m)
  have ih: "new_files_loop t0 ps acc' w =
     (Inr (acc' @ filter (\<lambda>p. \<exists>m. file_mtime (fs w) p = Some m \<and> datetime_lt t0 m) ps), w)"
    for acc'
    using Cons by simp
  show ?case
    by (simp add: py_bind_def g fm ih)
qed

lemma get_new_files_eq:
  assumes "distinct (map fst (fs w))"
  shows "get_new_files src t0 w =
     (Inr (filter (\<lambda>p. \<exists>m. file_mtime (fs w) p = Some m \<and> datetime_lt t0 m)
             (walk_files (fs w) src)),
      w\<lparr>calls := calls w @ [GetNewFiles src]\<rparr>)"
proof -
  let ?w = "w\<lparr>calls := calls w @ [GetNewFiles src]\<rparr>"
  have reg: "\<forall>p \<in> set (walk_files (fs w) src). \<exists>m d. map_of (fs ?w) p = Some (RegularFile m d)"
    using walk_files_regular[OF assms] by simp
  show ?thesis
    unfolding get_new_files_def
    using new_files_loop_eq[OF reg, of t0 "[]"]
    by (simp add: py_bind_def log_call_def)
qed

lemma ex_fs_distinct: "distinct (map fst ex_fs)"
  by (simp add: ex_fs_def ex_tree_def)

lemma digit_val_digit_char: "k < 10 \<Longrightarrow> digit_val (digit_char k) = Some k"
proof -
  assume "k < 10"
  then have "k = 0 \<or> k = 1 \<or> k = 2 \<or> k = 3 \<or> k = 4 \<or> k = 5 \<or> k = 6 \<or> k = 7 \<or> k = 8 \<or> k = 9"
    by arith
  then show ?thesis
    by (elim disjE) (simp_all add: digit_val_def digit_char_def DIGITS_def)
qed

lemma digit_val_mod [simp]: "digit_val (digit_char (n mod 10)) = Some (n mod 10)"
  by (rule digit_val_digit_char) simp

lemma not_space_digit: "k < 10 \<Longrightarrow> \<not> is_space (digit_char k)"
proof -
  assume "k < 10"
  then have "k = 0 \<or> k = 1 \<or> k = 2 \<or> k = 3 \<or> k = 4 \<or> k = 5 \<or> k = 6 \<or> k = 7 \<or> k = 8 \<or> k = 9"
    by arith
  then show ?thesis
    by (elim disjE) (simp_all add: is_space_def digit_char_def DIGITS_def)
qed

lemma not_space_mod [simp]: "\<not> is_space (digit_char (n mod 10))"
  by (rule not_space_digit) simp

lemma four_Suc: "(4::nat) = Suc (Suc (Suc (Suc 0)))" by simp
lemma six_Suc: "(6::nat) = Suc (Suc (Suc (Suc (Suc (Suc 0)))))" by simp
lemma div_div_nat: "(n::nat) div a div b = n div (a * b)" by (simp add: div_mult2_eq)

lemma zpad2: "zpad 2 n = [digit_char (n div 10 mod 10), digit_char (n mod 10)]"
  by (simp add: numeral_2_eq_2)
lemma zpad4: "zpad 4 n = [digit_char (n div 1000 mod 10), digit_char (n div 100 mod 10),
    digit_char (n div 10 mod 10), digit_char (n mod 10)]"
  by (subst four_Suc) (simp add: div_div_nat)
lemma zpad6: "zpad 6 n = [digit_char (n div 100000 mod 10), digit_char (n div 10000 mod 10),
    digit_char (n div 1000 mod 10), digit_char (n div 100 mod 10),
    digit_char (n div 10 mod 10), digit_char (n mod 10)]"
  by (subst six_Suc) (simp add: div_div_nat)

lemma parse_digits_append:
  "parse_digits acc (xs @ ys) =
     (case parse_digits acc xs of None \<Rightarrow> None | Some a \<Rightarrow> parse_digits a ys)"
  by (induction xs arbitrary: acc) (auto split: option.splits)

lemma parse_digits_zpad: "parse_digits acc (zpad k n) = Some (acc * 10 ^ k + n mod 10 ^ k)"
proof (induction k arbitrary: n acc)
  case 0
  then show ?case by simp
next
  case (Suc k)
  have "n mod (10 * 10 ^ k) = 10 * (n div 10 mod 10 ^ k) + n mod 10"
    by (rule mod_mult2_eq)
  then show ?case
    by (simp add: parse_digits_append Suc algebra_simps)
qed

lemma zpad_length [simp]: "length (zpad k n) = k"
  by (induction k arbitrary: n) auto

lemma parse_int_zpad: "0 < k \<Longrightarrow> n < 10 ^ k \<Longrightarrow> parse_int (zpad k n) = Some n"
proof -
  assume k: "0 < k" and n: "n < 10 ^ k"
  from k have "zpad k n \<noteq> []" by (metis zpad_length length_0_conv less_not_refl)
  with n show ?thesis by (simp add: parse_int_def parse_digits_zpad)
qed

lemma parse2: "n < 100 \<Longrightarrow> parse_int (zpad 2 n) = Some n"
  by (rule parse_int_zpad) simp_all

lemma parse4: "n < 10000 \<Longrightarrow> parse_int (zpad 4 n) = Some n"
  by (rule parse_int_zpad) simp_all

lemma parse6: "n < 1000000 \<Longrightarrow> parse_int (zpad 6 n) = Some n"
  by (rule parse_int_zpad) simp_all

lemma strip_id: "s \<noteq> [] \<Longrightarrow> \<not> is_space (hd s) \<Longrightarrow> \<not> is_space (last s) \<Longrightarrow> strip s = s"
proof -
  assume s: "s \<noteq> []" and h: "\<not> is_space (hd s)" and l: "\<not> is_space (last s)"
  from s h have 1: "dropWhile is_space s = s" by (cases s) auto
  from s l have "dropWhile is_space (rev s) = rev s" by (cases s rule: rev_cases) auto
  with 1 show ?thesis by (simp add: strip_def)
qed

lemma valid_ranges:
  assumes "valid_datetime d"
  shows "year d < 10000" "month d < 100" "day d < 100" "hour d < 100" "minute d < 100"
    "second d < 100" "microsecond d < 1000000"
proof -
  have "month d = 1 \<or> month d = 2 \<or> month d = 3 \<or> month d = 4 \<or> month d = 5 \<or>
      month d = 6 \<or> month d = 7 \<or> month d = 8 \<or> month d = 9 \<or> month d = 10 \<or>
      month d = 11 \<or> month d = 12"
    using assms unfolding valid_datetime_def by arith
  then have "days_in_month (year d) (month d) \<le> 31"
    by (elim disjE) (simp_all add: days_in_month_def DAYS_IN_MONTH_def)
  with assms show "year d < 10000" "month d < 100" "day d < 100" "hour d < 100" "minute d < 100"
    "second d < 100" "microsecond d < 1000000"
    by (auto simp: valid_datetime_def)
qed

lemma fromisoformat_isoformat:
  assumes "valid_datetime d"
  shows "fromisoformat (isoformat d) = Inr d"
proof -
  note r = valid_ranges[OF assms]
  define ds where "ds = zpad 4 (year d) @ ''-'' @ zpad 2 (month d) @ ''-'' @ zpad 2 (day d)"
  define hms where "hms = zpad 2 (hour d) @ '':'' @ zpad 2 (minute d) @ '':'' @ zpad 2 (second d)"
  define ts where
    "ts = hms @ (if microsecond d \<noteq> 0 then ''.'' @ zpad 6 (microsecond d) else [])"
  have iso: "isoformat d = ds @ ''T'' @ ts"
    by (simp add: isoformat_def ds_def hms_def ts_def)
  have len: "length ds = 10" by (simp add: ds_def)
  have t10: "take 10 (isoformat d) = ds" by (simp add: iso len)
  have d11: "drop 11 (isoformat d) = ts" by (simp add: iso len)
  have pd: "parse_date ds = Some (year d, month d, day d)"
    by (simp add: ds_def parse_date_def nth_append parse4 parse2 r)
  have pt: "parse_time ts = Some (hour d, minute d, second d, microsecond d)"
  proof (cases "microsecond d = 0")
    case True
    then show ?thesis
      by (simp add: ts_def hms_def parse_time_def nth_append parse2 r parse_fraction_def)
  next
    case False
    then show ?thesis
      by (simp add: ts_def hms_def parse_time_def nth_append parse2 r parse_fraction_def parse6)
  qed
  have ne: "ts \<noteq> []" by (simp add: ts_def hms_def zpad2)
  have eta: "\<lparr>year = year d, month = month d, day = day d, hour = hour d, minute = minute d,
       second = second d, microsecond = microsecond d\<rparr> = d"
    by (cases d) simp
  show ?thesis
    unfolding fromisoformat_def t10 d11 pd using ne assms
    by (simp add: pt eta)
qed

lemma strip_isoformat: "strip (isoformat d) = isoformat d"
proof (rule strip_id)
  show "isoformat d \<noteq> []" by (simp add: isoformat_def zpad4)
  show "\<not> is_space (hd (isoformat d))" by (simp add: isoformat_def zpad4)
  show "\<not> is_space (last (isoformat d))" by (simp add: isoformat_def zpad2 zpad6)
qed


lemma write_file_ok:
  assumes "p \<noteq> []" and "map_of (fs w) p \<noteq> Some Directory" and "is_dir (fs w) (butlast p)"
  shows "write_file p d w =
     (Inr (), w\<lparr>fs := AList.update p (RegularFile (clock w (ticks w)) d) (fs w)\<rparr>)"
  using assms by (simp add: write_file_def)

lemma write_file_Inr:
  assumes "write_file p d w = (Inr u, w')"
  shows "w' = w\<lparr>fs := AList.update p (RegularFile (clock w (ticks w)) d) (fs w)\<rparr>"
  using assms by (auto simp: write_file_def split: if_splits)

lemma update_last_run_time_Inr:
  assumes "update_last_run_time w = (Inr u, w')"
  shows "\<exists>m. map_of (fs w') LOG_FILE = Some (RegularFile m (Text (isoformat (clock w (ticks w)))))"
    and "ticks w' = Suc (ticks w)" and "clock w' = clock w"
proof -
  let ?w0 = "w\<lparr>calls := calls w @ [UpdateLastRunTime]\<rparr>"
  from assms obtain w1 where w1: "write_file LOG_FILE (Text []) ?w0 = (Inr (), w1)"
    by (auto simp: update_last_run_time_def py_bind_def log_call_def
             split: prod.splits sum.splits)
  let ?w2 = "w1\<lparr>ticks := Suc (ticks w1)\<rparr>"
  from assms w1 have w2: "write_file LOG_FILE (Text (isoformat (clock w1 (ticks w1)))) ?w2 = (Inr u, w')"
    by (simp add: update_last_run_time_def py_bind_def log_call_def datetime_now_def)
  note e1 = write_file_Inr[OF w1] and e2 = write_file_Inr[OF w2]
  have c: "clock w1 = clock w" "ticks w1 = ticks w" using e1 by simp_all
  show "\<exists>m. map_of (fs w') LOG_FILE = Some (RegularFile m (Text (isoformat (clock w (ticks w)))))"
    by (subst e2) (simp add: update_conv' c)
  show "ticks w' = Suc (ticks w)" by (subst e2) (simp add: c)
  show "clock w' = clock w" by (subst e2) (simp add: c)
qed

lemma get_last_run_time_marker:
  assumes "map_of (fs w) LOG_FILE = Some (RegularFile m (Text s))"
  shows "get_last_run_time w = (fromisoformat (strip s), w\<lparr>calls := calls w @ [GetLastRunTime]\<rparr>)"
  using assms
  by (simp add: get_last_run_time_def py_bind_def log_call_def os_path_exists_def
        exists_path_def read_text_def read_file_def py_return_def py_lift_def)

lemma get_last_run_time_default:
  assumes "\<not> exists_path (fs w) LOG_FILE"
  shows "get_last_run_time w =
     (sub_days (clock w (ticks w)) 30,
      w\<lparr>ticks := Suc (ticks w), calls := calls w @ [GetLastRunTime]\<rparr>)"
  using assms
  by (simp add: get_last_run_time_def py_bind_def log_call_def os_path_exists_def
        datetime_now_def py_lift_def)

lemma file_mtime_delete: "q \<noteq> p \<Longrightarrow> file_mtime (AList.delete p f) q = file_mtime f q"
  by (simp add: file_mtime_def)

lemma map_of_fold_delete:
  "map_of (fold AList.delete rm f) q = (if q \<in> set rm then None else map_of f q)"
  by (induction rm arbitrary: f) (auto simp: delete_conv')

lemma distinct_fold_delete:
  "distinct (map fst f) \<Longrightarrow> distinct (map fst (fold AList.delete rm f))"
  by (induction rm arbitrary: f) (auto simp: distinct_delete)

lemma walk_files_distinct:
  "distinct (map fst f) \<Longrightarrow> distinct (walk_files f src)"
  by (simp add: walk_files_def distinct_map_filter)

lemma delete_loop_eq:
  assumes "distinct ps"
    and "\<forall>p \<in> set ps. \<exists>m d. map_of (fs w) p = Some (RegularFile m d)"
  shows "delete_loop cutoff ps w =
     (Inr (), w\<lparr>fs := fold AList.delete (filter (is_old (fs w) cutoff) ps) (fs w),
                 stdout := stdout w @ map MsgDeletedOld (filter (is_old (fs w) cutoff) ps),
                 calls := calls w @ map OsRemove (filter (is_old (fs w) cutoff) ps)\<rparr>)"
  using assms
proof (induction ps arbitrary: w)
  case Nil
  then show ?case by (simp add: py_return_def)
next
  case (Cons p ps)
  then obtain m d where m: "map_of (fs w) p = Some (RegularFile m d)" by auto
  have g: "getmtime p w = (Inr m, w)" by (simp add: getmtime_def m)
  have fm: "file_mtime (fs w) p = Some m" by (simp add: file_mtime_def m)
  have notin: "p \<notin> set ps" and dps: "distinct ps" using Cons.prems(1) by simp_all
  show ?case
  proof (cases "datetime_lt m cutoff")
    case False
    then have old: "\<not> is_old (fs w) cutoff p" by (simp add: is_old_def fm)
    have ih: "delete_loop cutoff ps w =
     (Inr (), w\<lparr>fs := fold AList.delete (filter (is_old (fs w) cutoff) ps) (fs w),
                 stdout := stdout w @ map MsgDeletedOld (filter (is_old (fs w) cutoff) ps),
                 calls := calls w @ map OsRemove (filter (is_old (fs w) cutoff) ps)\<rparr>)"
      using Cons.IH[OF dps] Cons.prems(2) by simp
    show ?thesis using False old
      by (simp add: py_bind_def g py_return_def ih)
  next
    case True
    then have old: "is_old (fs w) cutoff p" by (simp add: is_old_def fm)
    let ?w1 = "w\<lparr>fs := AList.delete p (fs w), calls := calls w @ [OsRemove p],
                  stdout := stdout w @ [MsgDeletedOld p]\<rparr>"
    have rm: "py_bind (os_remove p) (\<lambda>_. print (MsgDeletedOld p)) w = (Inr (), ?w1)"
      by (simp add: py_bind_def os_remove_def m print_def)
    have reg: "\<forall>q \<in> set ps. \<exists>m d. map_of (fs ?w1) q = Some (RegularFile m d)"
      using Cons.prems(2) notin by (auto simp: delete_conv')
    have "is_old (fs ?w1) cutoff q = is_old (fs w) cutoff q" if "q \<in> set ps" for q
    proof -
      from that notin have "q \<noteq> p" by blast
      then show ?thesis by (simp add: is_old_def file_mtime_delete)
    qed
    then have same: "filter (is_old (fs ?w1) cutoff) ps = filter (is_old (fs w) cutoff) ps"
      by (intro filter_cong refl)
    have ih: "delete_loop cutoff ps ?w1 =
     (Inr (), ?w1\<lparr>fs := fold AList.delete (filter (is_old (fs w) cutoff) ps) (fs ?w1),
                 stdout := stdout ?w1 @ map MsgDeletedOld (filter (is_old (fs w) cutoff) ps),
                 calls := calls ?w1 @ map OsRemove (filter (is_old (fs w) cutoff) ps)\<rparr>)"
      using Cons.IH[OF dps reg] unfolding same .
    show ?thesis using True old
      by (simp add: py_bind_def g rm[unfolded py_bind_def] ih)
  qed
qed

lemma delete_old_files_eq:
  assumes "distinct (map fst (fs w))"
    and "sub_days (clock w (ticks w)) retention_days = Inr cutoff"
  shows "delete_old_files source_dir retention_days w =
     (Inr (), w\<lparr>fs := fold AList.delete
                         (filter (is_old (fs w) cutoff) (walk_files (fs w) source_dir)) (fs w),
                 ticks := Suc (ticks w),
                 stdout := stdout w @ map MsgDeletedOld
                         (filter (is_old (fs w) cutoff) (walk_files (fs w) source_dir)),
                 calls := calls w @ DeleteOldFiles source_dir retention_days #
                         map OsRemove
                           (filter (is_old (fs w) cutoff) (walk_files (fs w) source_dir))\<rparr>)"
proof -
  let ?w1 = "w\<lparr>calls := calls w @ [DeleteOldFiles source_dir retention_days],
                ticks := Suc (ticks w)\<rparr>"
  have reg: "\<forall>p \<in> set (walk_files (fs w) source_dir).
               \<exists>m d. map_of (fs ?w1) p = Some (RegularFile m d)"
    using walk_files_regular[OF assms(1)] by simp
  from delete_loop_eq[OF walk_files_distinct[OF assms(1)] reg, of cutoff]
  show ?thesis
    by (simp add: delete_old_files_def py_bind_def log_call_def datetime_now_def py_lift_def assms(2))
qed

subsection \<open>The call log of each operation\<close>

lemma main_split:
  "main =
     py_bind get_last_run_time (\<lambda>last_run_time.
     py_bind (print (MsgLastRunTime last_run_time)) (\<lambda>_.
     py_bind (get_new_files LOCAL_DIR last_run_time) (\<lambda>new_files.
     py_bind (if new_files = [] then print MsgNoNewFiles else backup_steps new_files) (\<lambda>_.
     finish_steps))))"
  unfolding main_def backup_steps_def finish_steps_def by (rule refl)

lemma emitsI: "(\<And>w. \<exists>cs. calls (snd (m w)) = calls w @ cs \<and> P cs) \<Longrightarrow> emits P m"
  by (simp add: emits_def)

lemma emitsD: "emits P m \<Longrightarrow> \<exists>cs. calls (snd (m w)) = calls w @ cs \<and> P cs"
  by (simp add: emits_def)

lemma emits_bind:
  assumes m: "emits P m" and f: "\<And>a. emits Q (f a)"
    and both: "\<And>a b. P a \<Longrightarrow> Q b \<Longrightarrow> R (a @ b)" and only: "\<And>a. P a \<Longrightarrow> R a"
  shows "emits R (py_bind m f)"
proof (rule emitsI)
  fix w
  obtain r w1 where mw: "m w = (r, w1)" by (cases "m w")
  from emitsD[OF m, of w] mw obtain a where a: "calls w1 = calls w @ a" "P a" by auto
  show "\<exists>cs. calls (snd (py_bind m f w)) = calls w @ cs \<and> R cs"
  proof (cases r)
    case (Inl e)
    with mw a only show ?thesis by (auto simp: py_bind_def)
  next
    case (Inr x)
    from emitsD[OF f, of x w1] obtain b where b: "calls (snd (f x w1)) = calls w1 @ b" "Q b"
      by auto
    with Inr mw a both[OF a(2) b(2)] show ?thesis by (auto simp: py_bind_def)
  qed
qed

lemma emits_try:
  assumes m: "emits P m" and h: "\<And>e. emits Q (h e)"
    and both: "\<And>a b. P a \<Longrightarrow> Q b \<Longrightarrow> R (a @ b)" and only: "\<And>a. P a \<Longrightarrow> R a"
  shows "emits R (py_try m h)"
proof (rule emitsI)
  fix w
  obtain r w1 where mw: "m w = (r, w1)" by (cases "m w")
  from emitsD[OF m, of w] mw obtain a where a: "calls w1 = calls w @ a" "P a" by auto
  show "\<exists>cs. calls (snd (py_try m h w)) = calls w @ cs \<and> R cs"
  proof (cases r)
    case (Inr x)
    with mw a only show ?thesis by (auto simp: py_try_def)
  next
    case (Inl e)
    from emitsD[OF h, of e w1] obtain b where b: "calls (snd (h e w1)) = calls w1 @ b" "Q b"
      by auto
    with Inl mw a both[OF a(2) b(2)] show ?thesis by (auto simp: py_try_def)
  qed
qed

lemma emits_dep: "(\<And>x. emits P (F x)) \<Longrightarrow> emits P (\<lambda>w. F (g w) w)"
  by (simp add: emits_def)

lemma emits_if: "emits P a \<Longrightarrow> emits P b \<Longrightarrow> emits P (if c then a else b)"
  by simp

lemma emits_weaken: "emits P m \<Longrightarrow> (\<And>cs. P cs \<Longrightarrow> Q cs) \<Longrightarrow> emits Q m"
  by (auto simp: emits_def)

text \<open>What each operation appends to the call log.\<close>

lemma silent_print: "emits (\<lambda>cs. cs = []) (print x)"
  by (simp add: emits_def print_def)
lemma silent_return: "emits (\<lambda>cs. cs = []) (py_return x)"
  by (simp add: emits_def py_return_def)
lemma silent_raise: "emits (\<lambda>cs. cs = []) (py_raise x)"
  by (simp add: emits_def py_raise_def)
lemma silent_lift: "emits (\<lambda>cs. cs = []) (py_lift x)"
  by (simp add: emits_def py_lift_def)
lemma silent_now: "emits (\<lambda>cs. cs = []) datetime_now"
  by (simp add: emits_def datetime_now_def)
lemma silent_exists: "emits (\<lambda>cs. cs = []) (os_path_exists p)"
  by (simp add: emits_def os_path_exists_def)
lemma silent_getmtime: "emits (\<lambda>cs. cs = []) (getmtime p)"
  by (simp add: emits_def getmtime_def split: option.splits entry.splits)
lemma silent_read_file: "emits (\<lambda>cs. cs = []) (read_file p)"
  by (simp add: emits_def read_file_def split: option.splits entry.splits)
lemma silent_write_file: "emits (\<lambda>cs. cs = []) (write_file p d)"
  by (simp add: emits_def write_file_def)
lemma silent_client: "emits (\<lambda>cs. cs = []) boto3_client_s3"
  by (simp add: emits_def boto3_client_s3_def split: option.splits)
lemma emits_log_call: "emits (\<lambda>cs. cs = [c]) (log_call c)"
  by (simp add: emits_def log_call_def)
lemma emits_os_remove: "emits (\<lambda>cs. cs = [OsRemove p]) (os_remove p)"
  by (simp add: emits_def os_remove_def split: option.splits entry.splits)
lemma emits_os_makedirs: "emits (\<lambda>cs. cs = [OsMakedirs p]) (os_makedirs p)"
  by (simp add: emits_def os_makedirs_def split: sum.splits)

lemma silent_read_text: "emits (\<lambda>cs. cs = []) (read_text p)"
  unfolding read_text_def
  by (rule emits_bind[OF silent_read_file, where Q = "\<lambda>cs. cs = []"])
     (auto split: fdata.splits intro: silent_return silent_raise)

lemma emits_get_last_run_time: "emits (\<lambda>cs. cs = [GetLastRunTime]) get_last_run_time"
  unfolding get_last_run_time_def
proof (rule emits_bind[OF emits_log_call, where Q = "\<lambda>cs. cs = []"])
  fix a :: unit
  show "emits (\<lambda>cs. cs = [])
          (py_bind (os_path_exists LOG_FILE)
            (\<lambda>ex. if ex then py_bind (read_text LOG_FILE) (\<lambda>s. py_lift (fromisoformat (strip s)))
                  else py_bind datetime_now (\<lambda>now. py_lift (sub_days now 30))))"
    by (intro emits_bind[where P = "\<lambda>cs. cs = []" and Q = "\<lambda>cs. cs = []"] emits_if
          silent_exists silent_read_text silent_lift silent_now) simp_all
qed simp_all

lemma emits_update_last_run_time: "emits (\<lambda>cs. cs = [UpdateLastRunTime]) update_last_run_time"
  unfolding update_last_run_time_def
proof (rule emits_bind[OF emits_log_call, where Q = "\<lambda>cs. cs = []"])
  fix a :: unit
  show "emits (\<lambda>cs. cs = [])
          (py_bind (write_file LOG_FILE (Text []))
            (\<lambda>_. py_bind datetime_now (\<lambda>now. write_file LOG_FILE (Text (isoformat now)))))"
    by (intro emits_bind[where P = "\<lambda>cs. cs = []" and Q = "\<lambda>cs. cs = []"]
          silent_write_file silent_now) simp_all
qed simp_all

lemma silent_new_files_loop: "emits (\<lambda>cs. cs = []) (new_files_loop t0 ps acc)"
proof (induction ps arbitrary: acc)
  case Nil
  then show ?case by (simp add: silent_return)
next
  case (Cons p ps)
  show ?case
    unfolding new_files_loop.simps
    by (rule emits_bind[OF silent_getmtime, where Q = "\<lambda>cs. cs = []"]) (simp_all add: Cons)
qed

lemma emits_get_new_files: "emits (\<lambda>cs. cs = [GetNewFiles src]) (get_new_files src t0)"
  unfolding get_new_files_def
  by (rule emits_bind[OF emits_log_call, where Q = "\<lambda>cs. cs = []"])
     (simp_all add: emits_dep[of _ "\<lambda>ps. new_files_loop t0 ps []"] silent_new_files_loop)


lemma steps_of_append: "steps_of (a @ b) = steps_of a @ steps_of b"
  by (induction a) (auto split: option.splits)

lemma seg_Nil: "seg i j []"
  by (simp add: seg_def)

lemma drop_take_split:
  assumes "i \<le> j" and "j \<le> k"
  shows "drop i (take k xs) = drop i (take j xs) @ drop j (take k xs)"
proof -
  have "drop i (take k xs) = take (k - i) (drop i xs)" by (simp add: drop_take)
  also have "\<dots> = take ((j - i) + (k - j)) (drop i xs)" using assms by simp
  also have "\<dots> = take (j - i) (drop i xs) @ take (k - j) (drop (j - i) (drop i xs))"
    by (rule take_add)
  also have "drop (j - i) (drop i xs) = drop j xs" using assms by simp
  finally show ?thesis by (simp add: drop_take)
qed

lemma seg_append:
  assumes "seg i j a" and "seg j k b" and "i \<le> j" and "j \<le> k"
  shows "seg i k (a @ b)"
  using assms(1,2)
  by (simp add: seg_def steps_of_append list_emb_append_mono drop_take_split[OF assms(3,4)])

lemma seg_mono:
  assumes "seg i j a" and "i' \<le> i" and "j \<le> j'" and "i \<le> j"
  shows "seg i' j' a"
proof -
  have "seg i' j ([] @ a)" by (rule seg_append[OF seg_Nil assms(1) assms(2) assms(4)])
  then have "seg i' j' (a @ [])"
    using seg_append[OF _ seg_Nil, of i' j a j'] assms by simp
  then show ?thesis by simp
qed

lemma seg_one: "step_of c = Some s \<Longrightarrow> i < 7 \<Longrightarrow> run_order ! i = s \<Longrightarrow> seg i (Suc i) [c]"
proof -
  assume c: "step_of c = Some s" and i: "i < 7" and s: "run_order ! i = s"
  have len: "length run_order = 7" by (simp add: run_order_def)
  have "drop i (take (Suc i) run_order) = [run_order ! i]"
    using i len by (simp add: take_Suc_conv_app_nth)
  with c s show ?thesis by (simp add: seg_def)
qed

lemma seg_none: "step_of c = None \<Longrightarrow> seg i i [c]"
  by (simp add: seg_def)

lemma emits_seg_bind:
  assumes "emits (seg i j) m" and "\<And>a. emits (seg j k) (f a)" and "i \<le> j" and "j \<le> k"
  shows "emits (seg i k) (py_bind m f)"
proof (rule emits_bind[OF assms(1), of "seg j k"])
  show "\<And>a. emits (seg j k) (f a)" by (rule assms(2))
  show "\<And>a b. seg i j a \<Longrightarrow> seg j k b \<Longrightarrow> seg i k (a @ b)"
    by (rule seg_append[OF _ _ assms(3,4)])
  show "\<And>a. seg i j a \<Longrightarrow> seg i k a"
    using assms(3,4) by (auto intro: seg_mono)
qed

lemma emits_seg_try:
  assumes "emits (seg i j) m" and "\<And>e. emits (seg j k) (h e)" and "i \<le> j" and "j \<le> k"
  shows "emits (seg i k) (py_try m h)"
proof (rule emits_try[OF assms(1), of "seg j k"])
  show "\<And>e. emits (seg j k) (h e)" by (rule assms(2))
  show "\<And>a b. seg i j a \<Longrightarrow> seg j k b \<Longrightarrow> seg i k (a @ b)"
    by (rule seg_append[OF _ _ assms(3,4)])
  show "\<And>a. seg i j a \<Longrightarrow> seg i k a"
    using assms(3,4) by (auto intro: seg_mono)
qed

lemma silent_seg: "emits (\<lambda>cs. cs = []) m \<Longrightarrow> emits (seg i i) m"
  by (erule emits_weaken) (simp add: seg_Nil)

lemma emits_seg_widen: "emits (seg i j) m \<Longrightarrow> i' \<le> i \<Longrightarrow> j \<le> j' \<Longrightarrow> i \<le> j \<Longrightarrow> emits (seg i' j') m"
  by (erule emits_weaken) (rule seg_mono)

lemma seg_get_last_run_time: "emits (seg 0 1) get_last_run_time"
  by (rule emits_weaken[OF emits_get_last_run_time])
     (simp add: seg_one[of _ ReadMarker 0, simplified] run_order_def)

lemma seg_get_new_files: "emits (seg 1 2) (get_new_files src t0)"
  by (rule emits_weaken[OF emits_get_new_files])
     (use seg_one[of "GetNewFiles src" Enumerate 1] in \<open>simp add: run_order_def numeral_2_eq_2\<close>)

lemma seg_update_last_run_time: "emits (seg 6 7) update_last_run_time"
  by (rule emits_weaken[OF emits_update_last_run_time])
     (use seg_one[of UpdateLastRunTime UpdateMarker 6] in \<open>simp add: run_order_def\<close>)

lemma emits_create_zip: "emits (\<lambda>cs. cs = [CreateZip fl zp]) (create_zip fl zp)"
  unfolding create_zip_def
proof (rule emits_bind[OF emits_log_call, where Q = "\<lambda>cs. cs = []"])
  fix a :: unit
  have 1: "emits (\<lambda>cs. cs = [])
             (\<lambda>w. if shutil_ZipFile w then (Inr (), w) else (Inl AttributeError, w))"
    by (simp add: emits_def)
  have 2: "emits (\<lambda>cs. cs = [])
             (py_bind (write_file zp (Archive ms))
                (\<lambda>_. case r of None \<Rightarrow> py_return () | Some e \<Rightarrow> py_raise e))" for r ms
    by (rule emits_bind[OF silent_write_file, where Q = "\<lambda>cs. cs = []"])
       (auto split: option.splits intro: silent_return silent_raise)
  have 3: "emits (\<lambda>cs. cs = [])
             (\<lambda>w. case zip_write_all (fs w) fl [] of
                     (r, members) \<Rightarrow>
                       py_bind (write_file zp (Archive members))
                         (\<lambda>_. case r of None \<Rightarrow> py_return () | Some e \<Rightarrow> py_raise e) w)"
    using 2 by (auto simp: emits_def split: prod.splits)
  show "emits (\<lambda>cs. cs = [])
          (py_bind (\<lambda>w. if shutil_ZipFile w then (Inr (), w) else (Inl AttributeError, w))
            (\<lambda>_. py_bind (write_file zp (Archive []))
              (\<lambda>_ w. case zip_write_all (fs w) fl [] of
                     (r, members) \<Rightarrow>
                       py_bind (write_file zp (Archive members))
                         (\<lambda>_. case r of None \<Rightarrow> py_return () | Some e \<Rightarrow> py_raise e) w)))"
    by (intro emits_bind[where P = "\<lambda>cs. cs = []" and Q = "\<lambda>cs. cs = []"] 1 3
          silent_write_file) simp_all
qed simp_all

lemma seg_create_zip: "emits (seg 2 3) (create_zip fl zp)"
  by (rule emits_weaken[OF emits_create_zip])
     (use seg_one[of "CreateZip fl zp" CreateArchive 2] in
        \<open>simp add: run_order_def numeral_3_eq_3 numeral_2_eq_2\<close>)

lemma emits_s3_upload_file:
  "emits (\<lambda>cs. cs = [S3UploadFile p b k]) (s3_upload_file p b k)"
  unfolding s3_upload_file_def
  by (rule emits_bind[OF emits_log_call, where Q = "\<lambda>cs. cs = []"])
     (auto simp: emits_def split: option.splits entry.splits)

lemma seg_s3_upload_file: "emits (seg 4 5) (s3_upload_file p b k)"
  by (rule emits_weaken[OF emits_s3_upload_file])
     (use seg_one[of "S3UploadFile p b k" Transfer 4] in \<open>simp add: run_order_def\<close>)

lemma seg_upload_to_s3: "emits (seg 3 5) (upload_to_s3 p b k)"
  unfolding upload_to_s3_def
proof (rule emits_seg_bind[where j = 4])
  show "emits (seg 3 4) (log_call (UploadToS3 p b k))"
    by (rule emits_weaken[OF emits_log_call])
       (use seg_one[of "UploadToS3 p b k" Upload 3] in \<open>simp add: run_order_def\<close>)
  show "emits (seg 4 5)
          (py_bind boto3_client_s3
            (\<lambda>_. py_try
                  (py_bind (s3_upload_file p b k) (\<lambda>_. print (MsgUploaded p b k)))
                  (\<lambda>e. if e = FileNotFoundError then print (MsgFileNotFound p)
                       else if e = NoCredentialsError then print MsgNoCredentials
                            else print (MsgErrorUploading p e))))" for a :: unit
    by (intro emits_seg_bind[where i = 4 and j = 4 and k = 5]
          emits_seg_try[where i = 4 and j = 5 and k = 5]
          emits_seg_bind[where i = 4 and j = 5 and k = 5]
          silent_seg silent_client silent_print seg_s3_upload_file emits_if) simp_all
qed simp_all

lemma seg_delete_loop: "emits (seg i i) (delete_loop cutoff ps)"
proof (induction ps)
  case Nil
  show ?case by (simp add: silent_seg silent_return)
next
  case (Cons p ps)
  have rm: "emits (seg i i) (os_remove p)"
    by (rule emits_weaken[OF emits_os_remove]) (simp add: seg_none)
  show ?case
    unfolding delete_loop.simps
    by (intro emits_seg_bind[where i = i and j = i and k = i] emits_if silent_seg
          silent_getmtime silent_print silent_return rm Cons) simp_all
qed

lemma seg_delete_old_files: "emits (seg 5 6) (delete_old_files src days)"
  unfolding delete_old_files_def
proof (rule emits_seg_bind[where j = 6])
  show "emits (seg 5 6) (log_call (DeleteOldFiles src days))"
    by (rule emits_weaken[OF emits_log_call])
       (use seg_one[of "DeleteOldFiles src days" Prune 5] in \<open>simp add: run_order_def\<close>)
  have loop: "emits (seg 6 6) (\<lambda>w. delete_loop c (walk_files (fs w) src) w)" for c
    by (rule emits_dep[of _ "\<lambda>ps. delete_loop c ps"]) (rule seg_delete_loop)
  show "emits (seg 6 6)
          (py_bind datetime_now
            (\<lambda>now. py_bind (py_lift (sub_days now days))
                  (\<lambda>cutoff_time w. delete_loop cutoff_time (walk_files (fs w) src) w)))"
    for a :: unit
    by (intro emits_seg_bind[where i = 6 and j = 6 and k = 6] silent_seg silent_now silent_lift
          loop) simp_all
qed simp_all

lemma seg_finish_steps: "emits (seg 5 7) finish_steps"
  unfolding finish_steps_def
  by (intro emits_seg_bind[where i = 5 and j = 5 and k = 7]
        emits_seg_bind[where i = 5 and j = 6 and k = 7]
        emits_seg_bind[where i = 6 and j = 7 and k = 7]
        silent_seg silent_print seg_delete_old_files seg_update_last_run_time) simp_all

lemma seg_backup_steps: "emits (seg 2 5) (backup_steps nf)"
proof -
  have mk: "emits (seg 2 2) (os_makedirs p)" for p
    by (rule emits_weaken[OF emits_os_makedirs]) (simp add: seg_none)
  have rm: "emits (seg 5 5) (os_remove p)" for p
    by (rule emits_weaken[OF emits_os_remove]) (simp add: seg_none)
  show ?thesis
    unfolding backup_steps_def
    by (intro emits_seg_bind[where i = 2 and j = 2 and k = 5]
        emits_seg_bind[where i = 2 and j = 3 and k = 5]
        emits_seg_bind[where i = 3 and j = 3 and k = 5]
        emits_seg_bind[where i = 3 and j = 5 and k = 5]
        emits_seg_bind[where i = 5 and j = 5 and k = 5]
        emits_if silent_seg silent_exists silent_print silent_now silent_return mk rm
        seg_create_zip seg_upload_to_s3) simp_all
qed

lemma seg_main: "emits (seg 0 7) main"
proof -
  have br: "emits (seg 2 5) (if nf = [] then print MsgNoNewFiles else backup_steps nf)" for nf
    by (intro emits_if seg_backup_steps emits_seg_widen[OF silent_seg[OF silent_print], of 2 2 5])
       simp_all
  show ?thesis
    unfolding main_split
    by (intro emits_seg_bind[where i = 0 and j = 1 and k = 7]
        emits_seg_bind[where i = 1 and j = 1 and k = 7]
        emits_seg_bind[where i = 1 and j = 2 and k = 7]
        emits_seg_bind[where i = 2 and j = 5 and k = 7]
        seg_get_last_run_time seg_get_new_files silent_seg silent_print br seg_finish_steps)
       simp_all
qed

lemma subseq_keeps_distinct: "subseq xs ys \<Longrightarrow> distinct ys \<Longrightarrow> distinct xs"
proof (induction rule: list_emb.induct)
  case (list_emb_Cons2 x y xs ys)
  have "x \<notin> set xs"
  proof
    assume "x \<in> set xs"
    with list_emb_set[OF list_emb_Cons2.hyps(2)] have "x \<in> set ys" by blast
    with list_emb_Cons2.hyps(1) list_emb_Cons2.prems show False by simp
  qed
  with list_emb_Cons2 show ?case by simp
qed simp_all

section \<open>Selection of the files to back up\<close>

text \<open>
  Claim C2. \<^verbatim>\<open>get_new_files\<close> returns normally, and a path is in its result exactly when
  it is a regular file below the scanned directory whose modification time is strictly
  later than the last run time it was given; a file whose time is equal or earlier is
  left out. In a file system, each path names one entry.
\<close>

theorem get_new_files_selects:
  assumes "distinct (map fst (fs w))"
  shows "\<exists>sel. get_new_files src t0 w = (Inr sel, w\<lparr>calls := calls w @ [GetNewFiles src]\<rparr>) \<and>
           (\<forall>p. p \<in> set sel \<longleftrightarrow>
                 (is_dir (fs w) src \<and> strict_prefix src p \<and>
                  (\<exists>m. file_mtime (fs w) p = Some m \<and> datetime_lt t0 m)))"
proof -
  let ?sel = "filter (\<lambda>p. \<exists>m. file_mtime (fs w) p = Some m \<and> datetime_lt t0 m)
                 (walk_files (fs w) src)"
  have "\<forall>p. p \<in> set ?sel \<longleftrightarrow>
                 (is_dir (fs w) src \<and> strict_prefix src p \<and>
                  (\<exists>m. file_mtime (fs w) p = Some m \<and> datetime_lt t0 m))"
    using walk_files_iff[OF assms, of _ src] by (simp only: set_filter mem_Collect_eq) blast
  with get_new_files_eq[OF assms, of src t0] show ?thesis by blast
qed

theorem get_new_files_selects_witness:
  "distinct (map fst (fs ex_world)) \<and>
   (\<exists>sel. get_new_files LOCAL_DIR t_marker ex_world
             = (Inr sel, ex_world\<lparr>calls := calls ex_world @ [GetNewFiles LOCAL_DIR]\<rparr>) \<and>
          (\<forall>p. p \<in> set sel \<longleftrightarrow>
                (is_dir (fs ex_world) LOCAL_DIR \<and> strict_prefix LOCAL_DIR p \<and>
                 (\<exists>m. file_mtime (fs ex_world) p = Some m \<and> datetime_lt t_marker m))))"
proof -
  have h: "distinct (map fst (fs ex_world))"
    by (simp add: ex_world_def ex_fs_distinct)
  from get_new_files_selects[OF h, of LOCAL_DIR t_marker] h show ?thesis by blast
qed

section \<open>The marker\<close>

text \<open>
  Claim C8. What \<^verbatim>\<open>update_last_run_time\<close> writes is read back unchanged: formatting the
  time it read from the clock with \<^verbatim>\<open>isoformat()\<close>, stripping and parsing with
  \<^verbatim>\<open>fromisoformat\<close> gives that datetime again, and \<^verbatim>\<open>get_last_run_time\<close> of a later
  invocation that finds the file system as the update left it returns exactly it.
  \<^verbatim>\<open>datetime.now()\<close> only returns datetimes that are valid.
\<close>

theorem marker_round_trip:
  assumes "valid_datetime (clock w (ticks w))"
    and "update_last_run_time w = (Inr (), w1)"
    and "fs w2 = fs w1"
  shows "fromisoformat (strip (isoformat (clock w (ticks w)))) = Inr (clock w (ticks w)) \<and>
         fst (get_last_run_time w2) = Inr (clock w (ticks w))"
proof -
  from update_last_run_time_Inr(1)[OF assms(2)] obtain m where
    "map_of (fs w1) LOG_FILE = Some (RegularFile m (Text (isoformat (clock w (ticks w)))))" ..
  with assms(3) have "map_of (fs w2) LOG_FILE = Some (RegularFile m (Text (isoformat (clock w (ticks w)))))"
    by simp
  from get_last_run_time_marker[OF this]
  show ?thesis
    by (simp add: strip_isoformat fromisoformat_isoformat[OF assms(1)])
qed

theorem marker_round_trip_witness:
  "valid_datetime (clock ex_world (ticks ex_world)) \<and>
   update_last_run_time ex_world = (Inr (), snd (update_last_run_time ex_world)) \<and>
   fst (get_last_run_time (snd (update_last_run_time ex_world))) = Inr t_run"
proof -
  have v: "valid_datetime (clock ex_world (ticks ex_world))"
    by (simp add: ex_defs cal_defs)
  have "fst (update_last_run_time ex_world) = Inr ()"
    by (simp add: update_last_run_time_def py_defs const_defs fs_defs ex_defs)
  then have u: "update_last_run_time ex_world = (Inr (), snd (update_last_run_time ex_world))"
    by (simp add: prod_eq_iff)
  have c: "clock ex_world (ticks ex_world) = t_run"
    by (simp add: ex_defs)
  from marker_round_trip[OF v u refl] v u c show ?thesis by simp
qed

text \<open>
  Claim C9. When the marker file does not exist, \<^verbatim>\<open>get_last_run_time\<close> returns the
  current time minus \<^verbatim>\<open>timedelta(days=30)\<close>, and the files selected with it are exactly
  the regular files below \<open>LOCAL_DIR\<close> modified strictly later than that; a file modified
  30 days ago or earlier is not selected. (The subtraction raises \<^verbatim>\<open>OverflowError\<close> only
  within the first 30 days of year 1.)
\<close>

theorem first_run_default:
  assumes "\<not> exists_path (fs w) LOG_FILE"
    and "distinct (map fst (fs w))"
    and "sub_days (clock w (ticks w)) 30 = Inr t30"
  shows "\<exists>w1 sel w2.
           get_last_run_time w = (Inr t30, w1) \<and>
           get_new_files LOCAL_DIR t30 w1 = (Inr sel, w2) \<and>
           (\<forall>p. p \<in> set sel \<longleftrightarrow>
                 (is_dir (fs w) LOCAL_DIR \<and> strict_prefix LOCAL_DIR p \<and>
                  (\<exists>m. file_mtime (fs w) p = Some m \<and> datetime_lt t30 m)))"
proof -
  let ?w1 = "w\<lparr>ticks := Suc (ticks w), calls := calls w @ [GetLastRunTime]\<rparr>"
  have g: "get_last_run_time w = (Inr t30, ?w1)"
    using get_last_run_time_default[OF assms(1)] assms(3) by simp
  have d: "distinct (map fst (fs ?w1))" using assms(2) by simp
  let ?sel = "filter (\<lambda>p. \<exists>m. file_mtime (fs w) p = Some m \<and> datetime_lt t30 m)
                 (walk_files (fs w) LOCAL_DIR)"
  have n: "get_new_files LOCAL_DIR t30 ?w1 = (Inr ?sel, ?w1\<lparr>calls := calls ?w1 @ [GetNewFiles LOCAL_DIR]\<rparr>)"
    using get_new_files_eq[OF d, of LOCAL_DIR t30] by simp
  have "\<forall>p. p \<in> set ?sel \<longleftrightarrow>
                 (is_dir (fs w) LOCAL_DIR \<and> strict_prefix LOCAL_DIR p \<and>
                  (\<exists>m. file_mtime (fs w) p = Some m \<and> datetime_lt t30 m))"
    using walk_files_iff[OF assms(2), of _ LOCAL_DIR] by (simp only: set_filter mem_Collect_eq) blast
  with g n show ?thesis by blast
qed

theorem first_run_default_witness:
  "\<not> exists_path (fs ex_first_run) LOG_FILE \<and>
   distinct (map fst (fs ex_first_run)) \<and>
   sub_days (clock ex_first_run (ticks ex_first_run)) 30 = Inr t_default \<and>
   (\<exists>w1 sel w2.
      get_last_run_time ex_first_run = (Inr t_default, w1) \<and>
      get_new_files LOCAL_DIR t_default w1 = (Inr sel, w2) \<and>
      (\<forall>p. p \<in> set sel \<longleftrightarrow>
            (is_dir (fs ex_first_run) LOCAL_DIR \<and> strict_prefix LOCAL_DIR p \<and>
             (\<exists>m. file_mtime (fs ex_first_run) p = Some m \<and> datetime_lt t_default m))))"
proof -
  have a: "\<not> exists_path (fs ex_first_run) LOG_FILE"
    by (simp add: ex_defs const_defs fs_defs)
  have b: "distinct (map fst (fs ex_first_run))"
    by (simp add: ex_defs)
  have c: "sub_days (clock ex_first_run (ticks ex_first_run)) 30 = Inr t_default"
    by (simp add: ex_defs cal_defs)
  from first_run_default[OF a b c] a b c show ?thesis by blast
qed

section \<open>Retention\<close>

text \<open>
  Claim C4. The pruning step, called with \<open>LOCAL_DIR\<close> and the retention of 15 days,
  returns normally and removes a path exactly when it is a regular file below
  \<open>LOCAL_DIR\<close> whose modification time is strictly earlier than the cutoff, the time read
  from the clock minus \<^verbatim>\<open>timedelta(days=15)\<close>; every other path, so every file within the
  retention window, is afterwards what it was before.
\<close>

theorem delete_old_files_prunes:
  assumes "distinct (map fst (fs w))"
    and "sub_days (clock w (ticks w)) RETENTION_DAYS = Inr cutoff"
  shows "RETENTION_DAYS = 15 \<and>
         (\<exists>w'. delete_old_files LOCAL_DIR RETENTION_DAYS w = (Inr (), w') \<and>
           (\<forall>p. map_of (fs w') p =
                  (if is_dir (fs w) LOCAL_DIR \<and> strict_prefix LOCAL_DIR p \<and>
                      (\<exists>m. file_mtime (fs w) p = Some m \<and> datetime_lt m cutoff)
                   then None else map_of (fs w) p)))"
proof -
  let ?rm = "filter (is_old (fs w) cutoff) (walk_files (fs w) LOCAL_DIR)"
  have mem: "p \<in> set ?rm \<longleftrightarrow>
       (is_dir (fs w) LOCAL_DIR \<and> strict_prefix LOCAL_DIR p \<and>
        (\<exists>m. file_mtime (fs w) p = Some m \<and> datetime_lt m cutoff))" for p
    using walk_files_iff[OF assms(1), of p LOCAL_DIR]
    by (auto simp: is_old_def split: option.splits)
  have "\<forall>p. map_of (fold AList.delete ?rm (fs w)) p =
                  (if is_dir (fs w) LOCAL_DIR \<and> strict_prefix LOCAL_DIR p \<and>
                      (\<exists>m. file_mtime (fs w) p = Some m \<and> datetime_lt m cutoff)
                   then None else map_of (fs w) p)"
    unfolding map_of_fold_delete mem by simp
  with delete_old_files_eq[OF assms, of LOCAL_DIR] show ?thesis
    by (simp add: RETENTION_DAYS_def)
qed

theorem delete_old_files_prunes_witness:
  "distinct (map fst (fs ex_world)) \<and>
   sub_days (clock ex_world (ticks ex_world)) RETENTION_DAYS = Inr t_cutoff \<and>
   RETENTION_DAYS = 15 \<and>
   (\<exists>w'. delete_old_files LOCAL_DIR RETENTION_DAYS ex_world = (Inr (), w') \<and>
     (\<forall>p. map_of (fs w') p =
            (if is_dir (fs ex_world) LOCAL_DIR \<and> strict_prefix LOCAL_DIR p \<and>
                (\<exists>m. file_mtime (fs ex_world) p = Some m \<and> datetime_lt m t_cutoff)
             then None else map_of (fs ex_world) p)))"
proof -
  have a: "distinct (map fst (fs ex_world))"
    by (simp add: ex_world_def ex_fs_distinct)
  have b: "sub_days (clock ex_world (ticks ex_world)) RETENTION_DAYS = Inr t_cutoff"
    by (simp add: ex_defs cal_defs RETENTION_DAYS_def)
  from delete_old_files_prunes[OF a b] a b show ?thesis by blast
qed

subsection \<open>What each step does to the world\<close>

lemma get_last_run_time_frame:
  assumes "get_last_run_time w = (r, w1)"
  shows "\<exists>n. w1 = w\<lparr>ticks := n, calls := calls w @ [GetLastRunTime]\<rparr>"
proof (cases "exists_path (fs w) LOG_FILE")
  case False
  from get_last_run_time_default[OF False] assms show ?thesis by auto
next
  case True
  have "w1 = w\<lparr>calls := calls w @ [GetLastRunTime]\<rparr>"
    using assms True
    by (auto simp: get_last_run_time_def py_defs split: option.splits entry.splits fdata.splits)
  then have "w1 = w\<lparr>ticks := ticks w, calls := calls w @ [GetLastRunTime]\<rparr>" by simp
  then show ?thesis by blast
qed

lemma mkdir_all_distinct:
  "mkdir_all qs f = Inr f' \<Longrightarrow> distinct (map fst f) \<Longrightarrow> distinct (map fst f')"
  by (induction qs arbitrary: f)
     (auto simp: distinct_update split: option.splits entry.splits)

lemma os_makedirs_frame:
  assumes "os_makedirs p w = (r, w')"
  shows "\<exists>F. w' = w\<lparr>fs := F, calls := calls w @ [OsMakedirs p]\<rparr> \<and>
             (distinct (map fst (fs w)) \<longrightarrow> distinct (map fst F))"
proof (cases "mkdir_all (prefixes_of p) (fs w)")
  case (Inl e)
  with assms have "w' = w\<lparr>fs := fs w, calls := calls w @ [OsMakedirs p]\<rparr>"
    by (auto simp: os_makedirs_def)
  then show ?thesis by blast
next
  case (Inr F)
  with assms have "w' = w\<lparr>fs := F, calls := calls w @ [OsMakedirs p]\<rparr>"
    by (auto simp: os_makedirs_def)
  with mkdir_all_distinct[OF Inr] show ?thesis by blast
qed

lemma write_file_frame:
  assumes "write_file p d w = (r, w')"
  shows "(\<exists>e. r = Inl e \<and> w' = w) \<or>
         (r = Inr () \<and> w' = w\<lparr>fs := AList.update p (RegularFile (clock w (ticks w)) d) (fs w)\<rparr>)"
  using assms by (auto simp: write_file_def split: if_splits)

lemma create_zip_frame:
  assumes "create_zip fl zp w = (r, w')"
  shows "\<exists>F. w' = w\<lparr>fs := F, calls := calls w @ [CreateZip fl zp]\<rparr> \<and>
             (distinct (map fst (fs w)) \<longrightarrow> distinct (map fst F)) \<and>
             (r = Inr () \<longrightarrow> shutil_ZipFile w \<and>
                (\<exists>m ms. map_of F zp = Some (RegularFile m (Archive ms))))"
proof -
  let ?w0 = "w\<lparr>calls := calls w @ [CreateZip fl zp]\<rparr>"
  show ?thesis
  proof (cases "shutil_ZipFile w")
    case False
    with assms have "w' = w\<lparr>fs := fs w, calls := calls w @ [CreateZip fl zp]\<rparr>" "r = Inl AttributeError"
      by (auto simp: create_zip_def py_bind_def log_call_def)
    then show ?thesis by blast
  next
    case True
    obtain r1 w1 where w1: "write_file zp (Archive []) ?w0 = (r1, w1)" by (cases "write_file zp (Archive []) ?w0")
    from write_file_frame[OF w1] show ?thesis
    proof (elim disjE exE conjE)
      fix e assume "r1 = Inl e" "w1 = ?w0"
      with assms True w1 have "w' = w\<lparr>fs := fs w, calls := calls w @ [CreateZip fl zp]\<rparr>" "r = Inl e"
        by (auto simp: create_zip_def py_bind_def log_call_def)
      then show ?thesis by blast
    next
      assume r1: "r1 = Inr ()"
        and e1: "w1 = ?w0\<lparr>fs := AList.update zp (RegularFile (clock ?w0 (ticks ?w0)) (Archive [])) (fs ?w0)\<rparr>"
      obtain zr ms where z: "zip_write_all (fs w1) fl [] = (zr, ms)" by (cases "zip_write_all (fs w1) fl []")
      obtain r2 w2 where w2: "write_file zp (Archive ms) w1 = (r2, w2)" by (cases "write_file zp (Archive ms) w1")
      have run: "(r, w') = py_bind (\<lambda>w. (r2, w2)) (\<lambda>_. case zr of None \<Rightarrow> py_return () | Some e \<Rightarrow> py_raise e) w1"
        using assms True w1 r1 z w2
        by (simp add: create_zip_def py_bind_def log_call_def)
      from write_file_frame[OF w2] show ?thesis
      proof (elim disjE exE conjE)
        fix e assume "r2 = Inl e" "w2 = w1"
        with run have "r = Inl e" "w' = w1" by (simp_all add: py_bind_def)
        with e1 have "w' = w\<lparr>fs := AList.update zp (RegularFile (clock w (ticks w)) (Archive [])) (fs w),
                          calls := calls w @ [CreateZip fl zp]\<rparr>" by simp
        with \<open>r = Inl e\<close> show ?thesis by (auto simp: distinct_update)
      next
        assume r2: "r2 = Inr ()"
          and e2: "w2 = w1\<lparr>fs := AList.update zp (RegularFile (clock w1 (ticks w1)) (Archive ms)) (fs w1)\<rparr>"
        from run r2 have "w' = w2"
          by (auto simp: py_bind_def py_return_def py_raise_def split: option.splits)
        with e1 e2 have "w' = w\<lparr>fs := AList.update zp (RegularFile (clock w (ticks w)) (Archive ms))
                                     (AList.update zp (RegularFile (clock w (ticks w)) (Archive [])) (fs w)),
                          calls := calls w @ [CreateZip fl zp]\<rparr>" by simp
        with True show ?thesis by (auto simp: distinct_update update_conv')
      qed
    qed
  qed
qed

lemma upload_to_s3_frame:
  assumes "upload_to_s3 p b k w = (r, w')"
  shows "(\<exists>e. client_fault w = Some e \<and> r = Inl e \<and>
              w' = w\<lparr>calls := calls w @ [UploadToS3 p b k]\<rparr>) \<or>
         (client_fault w = None \<and> r = Inr () \<and>
            (\<exists>x. w' = w\<lparr>s3 := s3 w', stdout := stdout w @ [x],
                           calls := calls w @ [UploadToS3 p b k, S3UploadFile p b k]\<rparr> \<and>
                   ((\<exists>m d. map_of (fs w) p = Some (RegularFile m d)) \<longrightarrow>
                      x = upload_report p b k (upload_fault w))))"
proof (cases "client_fault w")
  case (Some e)
  with assms show ?thesis
    by (auto simp: upload_to_s3_def py_bind_def log_call_def boto3_client_s3_def)
next
  case None
  let ?w0 = "w\<lparr>calls := calls w @ [UploadToS3 p b k, S3UploadFile p b k]\<rparr>"
  note up = upload_to_s3_def s3_upload_file_def py_bind_def py_try_def log_call_def
          boto3_client_s3_def print_def
  show ?thesis
  proof (cases "map_of (fs w) p")
    case N: None
    with assms None have "r = Inr ()" "w' = w\<lparr>s3 := s3 w, stdout := stdout w @ [MsgFileNotFound p],
                           calls := calls w @ [UploadToS3 p b k, S3UploadFile p b k]\<rparr>"
      by (auto simp: up)
    with None N show ?thesis by auto
  next
    case (Some en)
    show ?thesis
    proof (cases en)
      case Directory
      with Some assms None have "r = Inr ()" "w' = w\<lparr>s3 := s3 w, stdout := stdout w @ [MsgFileNotFound p],
                           calls := calls w @ [UploadToS3 p b k, S3UploadFile p b k]\<rparr>"
        by (auto simp: up)
      with None Some Directory show ?thesis by auto
    next
      case (RegularFile m d)
      show ?thesis
      proof (cases "upload_fault w")
        case F: None
        with Some RegularFile assms None have "r = Inr ()"
          "w' = w\<lparr>s3 := AList.update (b, k) d (s3 w), stdout := stdout w @ [MsgUploaded p b k],
                           calls := calls w @ [UploadToS3 p b k, S3UploadFile p b k]\<rparr>"
          by (auto simp: up)
        with None F show ?thesis by (auto simp: upload_report_def)
      next
        case F: (Some e)
        with Some RegularFile assms None have "r = Inr ()"
          "w' = w\<lparr>s3 := s3 w, stdout := stdout w @ [upload_report p b k (Some e)],
                           calls := calls w @ [UploadToS3 p b k, S3UploadFile p b k]\<rparr>"
          by (auto simp: up upload_report_def split: if_splits)
        with None F show ?thesis by auto
      qed
    qed
  qed
qed


lemma py_bind_cases:
  assumes "py_bind m f w = (r, w')"
  obtains (raised) e where "m w = (Inl e, w')" and "r = Inl e"
        | (returned) a w1 where "m w = (Inr a, w1)" and "f a w1 = (r, w')"
  using assms by (auto simp: py_bind_def split: prod.splits sum.splits)

lemma os_remove_frame:
  assumes "os_remove p w = (r, w')"
  shows "(\<exists>m d. map_of (fs w) p = Some (RegularFile m d) \<and> r = Inr () \<and>
            w' = w\<lparr>fs := AList.delete p (fs w), calls := calls w @ [OsRemove p]\<rparr>) \<or>
         ((\<forall>m d. map_of (fs w) p \<noteq> Some (RegularFile m d)) \<and> (\<exists>e. r = Inl e) \<and>
            w' = w\<lparr>calls := calls w @ [OsRemove p]\<rparr>)"
  using assms by (auto simp: os_remove_def split: option.splits entry.splits)

lemma bind_print: "py_bind (print x) f w = f () (w\<lparr>stdout := stdout w @ [x]\<rparr>)"
  by (simp add: py_bind_def print_def)

lemma bind_now: "py_bind datetime_now f w = f (clock w (ticks w)) (w\<lparr>ticks := Suc (ticks w)\<rparr>)"
  by (simp add: py_bind_def datetime_now_def)

lemma bind_exists: "py_bind (os_path_exists p) f w = f (exists_path (fs w) p) w"
  by (simp add: py_bind_def os_path_exists_def)

lemma bind_return: "py_bind (py_return x) f w = f x w"
  by (simp add: py_bind_def py_return_def)

lemma upload_tail_frame:
  assumes run: "py_bind (print (MsgUploading zp))
            (\<lambda>_. py_bind (upload_to_s3 zp b k)
               (\<lambda>_. py_bind (print (MsgDeletingZip zp)) (\<lambda>_. os_remove zp))) w = (r, w')"
    and zf: "map_of (fs w) zp = Some (RegularFile m d)"
  shows "(\<exists>e. r = Inl e \<and>
              w' = w\<lparr>stdout := stdout w @ [MsgUploading zp],
                      calls := calls w @ [UploadToS3 zp b k]\<rparr>) \<or>
         (r = Inr () \<and>
          w' = w\<lparr>fs := AList.delete zp (fs w), s3 := s3 w',
                  stdout := stdout w @ [MsgUploading zp,
                     upload_report zp b k (upload_fault w), MsgDeletingZip zp],
                  calls := calls w @ [UploadToS3 zp b k, S3UploadFile zp b k, OsRemove zp]\<rparr>)"
proof -
  let ?w1 = "w\<lparr>stdout := stdout w @ [MsgUploading zp]\<rparr>"
  from run have "py_bind (upload_to_s3 zp b k)
      (\<lambda>_. py_bind (print (MsgDeletingZip zp)) (\<lambda>_. os_remove zp)) ?w1 = (r, w')"
    by (simp add: bind_print)
  then show ?thesis
  proof (cases rule: py_bind_cases)
    case (raised e)
    from upload_to_s3_frame[OF raised(1)] raised(2) show ?thesis by auto
  next
    case (returned a w2)
    define S where "S = s3 w2"
    from upload_to_s3_frame[OF returned(1)] zf
    have w2: "w2 = ?w1\<lparr>s3 := S,
                 stdout := stdout ?w1 @ [upload_report zp b k (upload_fault w)],
                 calls := calls ?w1 @ [UploadToS3 zp b k, S3UploadFile zp b k]\<rparr>"
      unfolding S_def by auto
    let ?w3 = "w2\<lparr>stdout := stdout w2 @ [MsgDeletingZip zp]\<rparr>"
    from returned(2) have rm: "os_remove zp ?w3 = (r, w')" by (simp add: bind_print)
    have "fs w2 = fs w" by (subst w2) simp
    with zf have "map_of (fs ?w3) zp = Some (RegularFile m d)" by simp
    with os_remove_frame[OF rm]
    have r: "r = Inr ()" and w': "w' = ?w3\<lparr>fs := AList.delete zp (fs ?w3),
                                        calls := calls ?w3 @ [OsRemove zp]\<rparr>"
      by auto
    have w'': "w' = w\<lparr>fs := AList.delete zp (fs w), s3 := S,
                  stdout := stdout w @ [MsgUploading zp,
                     upload_report zp b k (upload_fault w), MsgDeletingZip zp],
                  calls := calls w @ [UploadToS3 zp b k, S3UploadFile zp b k, OsRemove zp]\<rparr>"
      unfolding w' by (subst (1 2 3 4) w2) simp
    then have "s3 w' = S" by simp
    with w'' have "w' = w\<lparr>fs := AList.delete zp (fs w), s3 := s3 w',
                  stdout := stdout w @ [MsgUploading zp,
                     upload_report zp b k (upload_fault w), MsgDeletingZip zp],
                  calls := calls w @ [UploadToS3 zp b k, S3UploadFile zp b k, OsRemove zp]\<rparr>"
      by simp
    with r show ?thesis by blast
  qed
qed


lemma ensure_dir_frame:
  assumes "(if \<not> exists_path (fs w) p then os_makedirs p else py_return ()) w = (r, w')"
  shows "\<exists>F. w' = w\<lparr>fs := F,
                   calls := calls w @ (if exists_path (fs w) p then [] else [OsMakedirs p])\<rparr> \<and>
             (distinct (map fst (fs w)) \<longrightarrow> distinct (map fst F))"
proof (cases "exists_path (fs w) p")
  case True
  with assms have "w' = w\<lparr>fs := fs w, calls := calls w @ []\<rparr>" by (simp add: py_return_def)
  with True have "w' = w\<lparr>fs := fs w,
                   calls := calls w @ (if exists_path (fs w) p then [] else [OsMakedirs p])\<rparr> \<and>
             (distinct (map fst (fs w)) \<longrightarrow> distinct (map fst (fs w)))" by simp
  then show ?thesis by (rule exI)
next
  case False
  with assms have "os_makedirs p w = (r, w')" by simp
  from os_makedirs_frame[OF this] False show ?thesis by auto
qed

lemma backup_steps_frame:
  assumes run: "backup_steps nf w = (r, w')" and d: "distinct (map fst (fs w))"
  shows "clock w' = clock w \<and> upload_fault w' = upload_fault w \<and>
    ((\<exists>e cs. r = Inl e \<and> calls w' = calls w @ cs \<and>
             (\<forall>c \<in> set cs. step_of c \<noteq> Some Transfer)) \<or>
     (r = Inr () \<and>
      calls w' = calls w @
         (if exists_path (fs w) BACKUP_DIR then [] else [OsMakedirs BACKUP_DIR]) @
         [CreateZip nf (os_path_join BACKUP_DIR (zip_name (clock w (ticks w)))),
          UploadToS3 (os_path_join BACKUP_DIR (zip_name (clock w (ticks w)))) S3_BUCKET
            (object_key (clock w (Suc (ticks w))) (zip_name (clock w (ticks w)))),
          S3UploadFile (os_path_join BACKUP_DIR (zip_name (clock w (ticks w)))) S3_BUCKET
            (object_key (clock w (Suc (ticks w))) (zip_name (clock w (ticks w)))),
          OsRemove (os_path_join BACKUP_DIR (zip_name (clock w (ticks w))))] \<and>
      stdout w' = stdout w @
         [MsgZipping (length nf) (os_path_join BACKUP_DIR (zip_name (clock w (ticks w)))),
          MsgUploading (os_path_join BACKUP_DIR (zip_name (clock w (ticks w)))),
          upload_report (os_path_join BACKUP_DIR (zip_name (clock w (ticks w)))) S3_BUCKET
            (object_key (clock w (Suc (ticks w))) (zip_name (clock w (ticks w))))
            (upload_fault w),
          MsgDeletingZip (os_path_join BACKUP_DIR (zip_name (clock w (ticks w))))] \<and>
      distinct (map fst (fs w')) \<and> ticks w' = Suc (Suc (ticks w))))"
proof -
  let ?mk = "if exists_path (fs w) BACKUP_DIR then [] else [OsMakedirs BACKUP_DIR]"
  let ?zp = "os_path_join BACKUP_DIR (zip_name (clock w (ticks w)))"
  let ?k = "object_key (clock w (Suc (ticks w))) (zip_name (clock w (ticks w)))"
  have mk: "\<forall>c \<in> set ?mk. step_of c \<noteq> Some Transfer" by simp
  from run[unfolded backup_steps_def bind_exists] show ?thesis
  proof (cases rule: py_bind_cases)
    case (raised e)
    from ensure_dir_frame[OF raised(1)] obtain F where
      "w' = w\<lparr>fs := F, calls := calls w @ ?mk\<rparr>" by blast
    then have "clock w' = clock w" "upload_fault w' = upload_fault w" "calls w' = calls w @ ?mk"
      by simp_all
    with raised(2) mk show ?thesis by blast
  next
    case (returned a w2)
    from ensure_dir_frame[OF returned(1)] d obtain F2 where
      w2: "w2 = w\<lparr>fs := F2, calls := calls w @ ?mk\<rparr>" and d2: "distinct (map fst F2)" by blast
    let ?w4 = "w2\<lparr>ticks := Suc (ticks w2),
                   stdout := stdout w2 @ [MsgZipping (length nf) ?zp]\<rparr>"
    have c2: "clock w2 = clock w" "ticks w2 = ticks w" by (simp_all add: w2)
    from returned(2) have "py_bind (create_zip nf ?zp)
        (\<lambda>_. py_bind datetime_now
           (\<lambda>t2. py_bind (print (MsgUploading ?zp))
              (\<lambda>_. py_bind (upload_to_s3 ?zp S3_BUCKET (object_key t2 (zip_name (clock w (ticks w)))))
                 (\<lambda>_. py_bind (print (MsgDeletingZip ?zp)) (\<lambda>_. os_remove ?zp))))) ?w4
       = (r, w')"
      by (simp add: bind_now bind_print c2)
    then show ?thesis
    proof (cases rule: py_bind_cases)
      case (raised e)
      from create_zip_frame[OF raised(1)] obtain F where
        "w' = ?w4\<lparr>fs := F, calls := calls ?w4 @ [CreateZip nf ?zp]\<rparr>" by blast
      then have "clock w' = clock w" "upload_fault w' = upload_fault w"
        "calls w' = calls w @ (?mk @ [CreateZip nf ?zp])"
        by (simp_all add: w2)
      moreover have "\<forall>c \<in> set (?mk @ [CreateZip nf ?zp]). step_of c \<noteq> Some Transfer" by simp
      ultimately show ?thesis using raised(2) by blast
    next
      case (returned a5 w5)
      have d4: "distinct (map fst (fs ?w4))" by (simp add: w2 d2)
      from create_zip_frame[OF returned(1)] d4 obtain F5 m ms where
        w5: "w5 = ?w4\<lparr>fs := F5, calls := calls ?w4 @ [CreateZip nf ?zp]\<rparr>"
        and d5: "distinct (map fst F5)"
        and z5: "map_of F5 ?zp = Some (RegularFile m (Archive ms))" by auto
      let ?w6 = "w5\<lparr>ticks := Suc (ticks w5)\<rparr>"
      have c5: "clock w5 = clock w" "ticks w5 = Suc (ticks w)" by (simp_all add: w5 w2)
      from returned(2) have tail: "py_bind (print (MsgUploading ?zp))
              (\<lambda>_. py_bind (upload_to_s3 ?zp S3_BUCKET ?k)
                 (\<lambda>_. py_bind (print (MsgDeletingZip ?zp)) (\<lambda>_. os_remove ?zp))) ?w6
         = (r, w')"
        by (simp add: bind_now c5)
      have z6: "map_of (fs ?w6) ?zp = Some (RegularFile m (Archive ms))" by (simp add: w5 z5)
      have u6: "upload_fault ?w6 = upload_fault w" by (simp add: w5 w2)
      from upload_tail_frame[OF tail z6] show ?thesis
      proof (elim disjE exE conjE)
        fix e assume e: "r = Inl e"
          and w': "w' = ?w6\<lparr>stdout := stdout ?w6 @ [MsgUploading ?zp],
                               calls := calls ?w6 @ [UploadToS3 ?zp S3_BUCKET ?k]\<rparr>"
        have "clock w' = clock w" "upload_fault w' = upload_fault w"
          "calls w' = calls w @ (?mk @ [CreateZip nf ?zp, UploadToS3 ?zp S3_BUCKET ?k])"
          by (simp_all add: w' w5 w2)
        moreover have "\<forall>c \<in> set (?mk @ [CreateZip nf ?zp, UploadToS3 ?zp S3_BUCKET ?k]).
                          step_of c \<noteq> Some Transfer" by simp
        ultimately show ?thesis using e by blast
      next
        define S where "S = s3 w'"
        assume r: "r = Inr ()"
          and "w' = ?w6\<lparr>fs := AList.delete ?zp (fs ?w6), s3 := s3 w',
                  stdout := stdout ?w6 @ [MsgUploading ?zp,
                     upload_report ?zp S3_BUCKET ?k (upload_fault ?w6), MsgDeletingZip ?zp],
                  calls := calls ?w6 @ [UploadToS3 ?zp S3_BUCKET ?k,
                     S3UploadFile ?zp S3_BUCKET ?k, OsRemove ?zp]\<rparr>"
        then have w': "w' = ?w6\<lparr>fs := AList.delete ?zp (fs ?w6), s3 := S,
                  stdout := stdout ?w6 @ [MsgUploading ?zp,
                     upload_report ?zp S3_BUCKET ?k (upload_fault ?w6), MsgDeletingZip ?zp],
                  calls := calls ?w6 @ [UploadToS3 ?zp S3_BUCKET ?k,
                     S3UploadFile ?zp S3_BUCKET ?k, OsRemove ?zp]\<rparr>"
          unfolding S_def by simp
        have "clock w' = clock w" "upload_fault w' = upload_fault w"
          "calls w' = calls w @ ?mk @ [CreateZip nf ?zp, UploadToS3 ?zp S3_BUCKET ?k,
                     S3UploadFile ?zp S3_BUCKET ?k, OsRemove ?zp]"
          "stdout w' = stdout w @ [MsgZipping (length nf) ?zp, MsgUploading ?zp,
                     upload_report ?zp S3_BUCKET ?k (upload_fault w), MsgDeletingZip ?zp]"
          "distinct (map fst (fs w'))" "ticks w' = Suc (Suc (ticks w))"
          by (simp_all add: w' w5 w2 d5 distinct_delete)
        with r show ?thesis by blast
      qed
    qed
  qed
qed


lemma update_last_run_time_frame:
  assumes "update_last_run_time w = (r, w')"
  shows "\<exists>F n. w' = w\<lparr>fs := F, ticks := n, calls := calls w @ [UpdateLastRunTime]\<rparr> \<and>
           (\<forall>q. q \<noteq> LOG_FILE \<longrightarrow> map_of F q = map_of (fs w) q) \<and>
           (map_of F LOG_FILE = map_of (fs w) LOG_FILE \<or>
            (\<exists>m s. map_of F LOG_FILE = Some (RegularFile m (Text s)))) \<and>
           (r = Inr () \<longrightarrow> n = Suc (ticks w) \<and>
              (\<exists>m. map_of F LOG_FILE =
                     Some (RegularFile m (Text (isoformat (clock w (ticks w)))))))"
proof -
  let ?w0 = "w\<lparr>calls := calls w @ [UpdateLastRunTime]\<rparr>"
  from assms have "py_bind (write_file LOG_FILE (Text []))
      (\<lambda>_. py_bind datetime_now (\<lambda>now. write_file LOG_FILE (Text (isoformat now)))) ?w0 = (r, w')"
    by (simp add: update_last_run_time_def py_bind_def[of "log_call _"] log_call_def)
  then show ?thesis
  proof (cases rule: py_bind_cases)
    case (raised e)
    from write_file_frame[OF raised(1)] raised(2)
    have "w' = w\<lparr>fs := fs w, ticks := ticks w, calls := calls w @ [UpdateLastRunTime]\<rparr>"
      by auto
    moreover have "r \<noteq> Inr ()" using raised(2) by simp
    ultimately show ?thesis by blast
  next
    case (returned a w1)
    from write_file_frame[OF returned(1)]
    have w1: "w1 = ?w0\<lparr>fs := AList.update LOG_FILE (RegularFile (clock w (ticks w)) (Text [])) (fs w)\<rparr>"
      by auto
    let ?w2 = "w1\<lparr>ticks := Suc (ticks w1)\<rparr>"
    have c1: "clock w1 = clock w" "ticks w1 = ticks w" by (simp_all add: w1)
    from returned(2) have wr: "write_file LOG_FILE (Text (isoformat (clock w (ticks w)))) ?w2 = (r, w')"
      by (simp add: bind_now c1)
    from write_file_frame[OF wr] show ?thesis
    proof (elim disjE exE conjE)
      fix e assume "r = Inl e" "w' = ?w2"
      then have "w' = w\<lparr>fs := AList.update LOG_FILE (RegularFile (clock w (ticks w)) (Text [])) (fs w),
                        ticks := Suc (ticks w), calls := calls w @ [UpdateLastRunTime]\<rparr>"
        and "r \<noteq> Inr ()"
        by (simp_all add: w1)
      moreover have "\<forall>q. q \<noteq> LOG_FILE \<longrightarrow>
          map_of (AList.update LOG_FILE (RegularFile (clock w (ticks w)) (Text [])) (fs w)) q = map_of (fs w) q"
        by (simp add: update_conv')
      moreover have "\<exists>m s. map_of (AList.update LOG_FILE (RegularFile (clock w (ticks w)) (Text [])) (fs w)) LOG_FILE
           = Some (RegularFile m (Text s))"
        by (simp add: update_conv')
      ultimately show ?thesis by blast
    next
      let ?F = "AList.update LOG_FILE
                 (RegularFile (clock w (Suc (ticks w))) (Text (isoformat (clock w (ticks w)))))
                 (AList.update LOG_FILE (RegularFile (clock w (ticks w)) (Text [])) (fs w))"
      assume "r = Inr ()"
        and "w' = ?w2\<lparr>fs := AList.update LOG_FILE
                (RegularFile (clock ?w2 (ticks ?w2)) (Text (isoformat (clock w (ticks w))))) (fs ?w2)\<rparr>"
      then have "w' = w\<lparr>fs := ?F, ticks := Suc (ticks w), calls := calls w @ [UpdateLastRunTime]\<rparr>"
        by (simp add: w1)
      moreover have "\<forall>q. q \<noteq> LOG_FILE \<longrightarrow> map_of ?F q = map_of (fs w) q"
        by (simp add: update_conv')
      moreover have "\<exists>m. map_of ?F LOG_FILE = Some (RegularFile m (Text (isoformat (clock w (ticks w)))))"
        by (simp add: update_conv')
      ultimately show ?thesis by blast
    qed
  qed
qed

lemma finish_steps_frame:
  assumes run: "finish_steps w = (r, w')"
    and d: "distinct (map fst (fs w))"
    and c: "sub_days (clock w (ticks w)) RETENTION_DAYS = Inr cutoff"
  shows "\<exists>F n out.
           w' = w\<lparr>fs := F, ticks := n,
                   stdout := stdout w @ out,
                   calls := calls w @ DeleteOldFiles LOCAL_DIR RETENTION_DAYS #
                     map OsRemove (filter (is_old (fs w) cutoff) (walk_files (fs w) LOCAL_DIR)) @
                     [UpdateLastRunTime]\<rparr> \<and>
           (\<forall>q. q \<noteq> LOG_FILE \<longrightarrow>
               map_of F q = (if q \<in> set (filter (is_old (fs w) cutoff) (walk_files (fs w) LOCAL_DIR))
                             then None else map_of (fs w) q)) \<and>
           (map_of F LOG_FILE = map_of (fs w) LOG_FILE \<or>
            (\<exists>m s. map_of F LOG_FILE = Some (RegularFile m (Text s)))) \<and>
           (r = Inr () \<longrightarrow>
              (\<exists>m t. map_of F LOG_FILE = Some (RegularFile m (Text (isoformat t)))))"
proof -
  let ?rm = "filter (is_old (fs w) cutoff) (walk_files (fs w) LOCAL_DIR)"
  let ?w1 = "w\<lparr>stdout := stdout w @ [MsgDeletingOlder RETENTION_DAYS]\<rparr>"
  let ?w2 = "?w1\<lparr>fs := fold AList.delete ?rm (fs w), ticks := Suc (ticks w),
                 stdout := stdout ?w1 @ map MsgDeletedOld ?rm,
                 calls := calls w @ DeleteOldFiles LOCAL_DIR RETENTION_DAYS # map OsRemove ?rm\<rparr>"
  have del: "delete_old_files LOCAL_DIR RETENTION_DAYS ?w1 = (Inr (), ?w2)"
    using delete_old_files_eq[of ?w1 RETENTION_DAYS cutoff LOCAL_DIR] d c by simp
  from run have "py_bind update_last_run_time (\<lambda>_. print MsgCompleted) ?w2 = (r, w')"
    by (simp add: finish_steps_def bind_print py_bind_def[of "delete_old_files _ _"] del)
  then show ?thesis
  proof (cases rule: py_bind_cases)
    case (raised e)
    from update_last_run_time_frame[OF raised(1)] obtain F n where
      w': "w' = ?w2\<lparr>fs := F, ticks := n, calls := calls ?w2 @ [UpdateLastRunTime]\<rparr>"
      and other: "\<forall>q. q \<noteq> LOG_FILE \<longrightarrow> map_of F q = map_of (fs ?w2) q"
      and log: "map_of F LOG_FILE = map_of (fs ?w2) LOG_FILE \<or>
            (\<exists>m s. map_of F LOG_FILE = Some (RegularFile m (Text s)))"
      by blast
    have eq: "w' = w\<lparr>fs := F, ticks := n,
                   stdout := stdout w @ (MsgDeletingOlder RETENTION_DAYS # map MsgDeletedOld ?rm),
                   calls := calls w @ DeleteOldFiles LOCAL_DIR RETENTION_DAYS #
                     map OsRemove ?rm @ [UpdateLastRunTime]\<rparr>"
      by (simp add: w')
    have notin: "LOG_FILE \<notin> set ?rm"
      by (auto simp: walk_files_def LOG_FILE_def LOCAL_DIR_def split: if_splits)
    have o: "\<forall>q. q \<noteq> LOG_FILE \<longrightarrow>
               map_of F q = (if q \<in> set ?rm then None else map_of (fs w) q)"
      using other by (simp add: map_of_fold_delete)
    have l: "map_of F LOG_FILE = map_of (fs w) LOG_FILE \<or>
            (\<exists>m s. map_of F LOG_FILE = Some (RegularFile m (Text s)))"
      using log notin by (auto simp: map_of_fold_delete)
    from eq o l raised(2) show ?thesis by blast
  next
    case (returned a w3)
    from update_last_run_time_frame[OF returned(1)] obtain F n where
      w3: "w3 = ?w2\<lparr>fs := F, ticks := n, calls := calls ?w2 @ [UpdateLastRunTime]\<rparr>"
      and other: "\<forall>q. q \<noteq> LOG_FILE \<longrightarrow> map_of F q = map_of (fs ?w2) q"
      and log: "\<exists>m. map_of F LOG_FILE = Some (RegularFile m (Text (isoformat (clock ?w2 (ticks ?w2)))))"
      by auto
    from returned(2) have r: "r = Inr ()" and w': "w' = w3\<lparr>stdout := stdout w3 @ [MsgCompleted]\<rparr>"
      by (auto simp: print_def)
    have eq: "w' = w\<lparr>fs := F, ticks := n,
                   stdout := stdout w @ (MsgDeletingOlder RETENTION_DAYS # map MsgDeletedOld ?rm
                       @ [MsgCompleted]),
                   calls := calls w @ DeleteOldFiles LOCAL_DIR RETENTION_DAYS #
                     map OsRemove ?rm @ [UpdateLastRunTime]\<rparr>"
      by (simp add: w' w3)
    have o: "\<forall>q. q \<noteq> LOG_FILE \<longrightarrow>
               map_of F q = (if q \<in> set ?rm then None else map_of (fs w) q)"
      using other by (simp add: map_of_fold_delete)
    from log have l: "\<exists>m t. map_of F LOG_FILE = Some (RegularFile m (Text (isoformat t)))"
      by blast
    then have l2: "map_of F LOG_FILE = map_of (fs w) LOG_FILE \<or>
            (\<exists>m s. map_of F LOG_FILE = Some (RegularFile m (Text s)))" by blast
    from eq o l l2 r show ?thesis by blast
  qed
qed

subsection \<open>Runs of \<^verbatim>\<open>main\<close>\<close>

lemma main_after_selection:
  assumes run: "main w = (r, w')" and d: "distinct (map fst (fs w))"
  shows "(\<exists>e. r = Inl e \<and> get_last_run_time w = (Inl e, w') \<and>
              calls w' = calls w @ [GetLastRunTime]) \<or>
         (\<exists>t w1. get_last_run_time w = (Inr t, w1) \<and>
            py_bind
              (if filter (\<lambda>p. \<exists>m. file_mtime (fs w) p = Some m \<and> datetime_lt t m)
                    (walk_files (fs w) LOCAL_DIR) = []
               then print MsgNoNewFiles
               else backup_steps
                      (filter (\<lambda>p. \<exists>m. file_mtime (fs w) p = Some m \<and> datetime_lt t m)
                         (walk_files (fs w) LOCAL_DIR)))
              (\<lambda>_. finish_steps)
              (w\<lparr>ticks := ticks w1, stdout := stdout w @ [MsgLastRunTime t],
                 calls := calls w @ [GetLastRunTime, GetNewFiles LOCAL_DIR]\<rparr>) = (r, w'))"
  using run[unfolded main_split]
proof (cases rule: py_bind_cases)
  case (raised e)
  from get_last_run_time_frame[OF raised(1)] have "calls w' = calls w @ [GetLastRunTime]"
    by auto
  with raised show ?thesis by blast
next
  case (returned t w1)
  from get_last_run_time_frame[OF returned(1)] obtain n where
    w1: "w1 = w\<lparr>ticks := n, calls := calls w @ [GetLastRunTime]\<rparr>" by blast
  let ?w2 = "w1\<lparr>stdout := stdout w1 @ [MsgLastRunTime t]\<rparr>"
  let ?sel = "filter (\<lambda>p. \<exists>m. file_mtime (fs w) p = Some m \<and> datetime_lt t m)
                 (walk_files (fs w) LOCAL_DIR)"
  have d2: "distinct (map fst (fs ?w2))" using d by (simp add: w1)
  have gn: "get_new_files LOCAL_DIR t ?w2 =
              (Inr ?sel, ?w2\<lparr>calls := calls ?w2 @ [GetNewFiles LOCAL_DIR]\<rparr>)"
    using get_new_files_eq[OF d2, of LOCAL_DIR t] by (simp add: w1)
  from returned(2) have
    "py_bind (if ?sel = [] then print MsgNoNewFiles else backup_steps ?sel) (\<lambda>_. finish_steps)
       (?w2\<lparr>calls := calls ?w2 @ [GetNewFiles LOCAL_DIR]\<rparr>) = (r, w')"
    by (simp add: bind_print py_bind_def[of "get_new_files _ _"] gn)
  then have "py_bind (if ?sel = [] then print MsgNoNewFiles else backup_steps ?sel)
       (\<lambda>_. finish_steps)
       (w\<lparr>ticks := ticks w1, stdout := stdout w @ [MsgLastRunTime t],
          calls := calls w @ [GetLastRunTime, GetNewFiles LOCAL_DIR]\<rparr>) = (r, w')"
    by (simp add: w1)
  with returned(1) show ?thesis by blast
qed

lemma upload_to_s3_returns:
  assumes "client_fault w = None"
  shows "fst (upload_to_s3 p b k w) = Inr ()"
proof -
  obtain r w' where u: "upload_to_s3 p b k w = (r, w')" by (cases "upload_to_s3 p b k w")
  from upload_to_s3_frame[OF u] assms have "r = Inr ()" by auto
  with u show ?thesis by simp
qed

text \<open>The paths that the directory creation leaves alone.\<close>

lemma mkdir_all_other:
  "mkdir_all qs f = Inr f' \<Longrightarrow> q \<notin> set qs \<Longrightarrow> map_of f' q = map_of f q"
proof (induction qs arbitrary: f)
  case Nil
  then show ?case by simp
next
  case (Cons a qs)
  from Cons.prems(2) have qa: "q \<noteq> a" and qn: "q \<notin> set qs" by simp_all
  show ?case
  proof (cases "map_of f a")
    case None
    with Cons.prems(1) have "mkdir_all qs (AList.update a Directory f) = Inr f'" by simp
    from Cons.IH[OF this qn] qa show ?thesis by (simp add: update_conv')
  next
    case (Some en)
    with Cons.prems(1) have "en = Directory" and "mkdir_all qs f = Inr f'"
      by (cases en; simp)+
    from Cons.IH[OF this(2) qn] show ?thesis .
  qed
qed

lemma os_makedirs_other:
  assumes "os_makedirs p w = (r, w')" and "q \<notin> set (prefixes_of p)"
  shows "map_of (fs w') q = map_of (fs w) q"
proof (cases "mkdir_all (prefixes_of p) (fs w)")
  case (Inl e)
  with assms(1) show ?thesis by (auto simp: os_makedirs_def split: if_splits)
next
  case (Inr F)
  with assms(1) have "fs w' = F \<or> fs w' = fs w" by (auto simp: os_makedirs_def split: if_splits)
  with mkdir_all_other[OF Inr assms(2)] show ?thesis by auto
qed

lemma ensure_dir_other:
  assumes "(if \<not> exists_path (fs w) p then os_makedirs p else py_return ()) w = (r, w')"
    and "q \<notin> set (prefixes_of p)"
  shows "map_of (fs w') q = map_of (fs w) q"
proof (cases "exists_path (fs w) p")
  case True
  with assms(1) show ?thesis by (simp add: py_return_def)
next
  case False
  with assms(1) have "os_makedirs p w = (r, w')" by simp
  from os_makedirs_other[OF this assms(2)] show ?thesis .
qed

lemma marker_not_backup_prefix: "LOG_FILE \<notin> set (prefixes_of BACKUP_DIR)"
  by (simp add: LOG_FILE_def BACKUP_DIR_def)

text \<open>Without \<^verbatim>\<open>shutil.ZipFile\<close>, \<^verbatim>\<open>create_zip\<close> raises before it touches the disk, and so the
  steps taken for a non-empty selection never return.\<close>

lemma create_zip_no_ZipFile:
  assumes "\<not> shutil_ZipFile w"
  shows "create_zip fl zp w = (Inl AttributeError, w\<lparr>calls := calls w @ [CreateZip fl zp]\<rparr>)"
  using assms by (simp add: create_zip_def py_bind_def log_call_def)

lemma backup_steps_no_ZipFile:
  assumes run: "backup_steps nf w = (r, w')" and stock: "\<not> shutil_ZipFile w"
  shows "(\<exists>e. r = Inl e) \<and> s3 w' = s3 w \<and>
         map_of (fs w') LOG_FILE = map_of (fs w) LOG_FILE"
proof -
  let ?zp = "os_path_join BACKUP_DIR (zip_name (clock w (ticks w)))"
  from run[unfolded backup_steps_def bind_exists] show ?thesis
  proof (cases rule: py_bind_cases)
    case (raised e)
    from ensure_dir_frame[OF raised(1)] have "s3 w' = s3 w" by auto
    with ensure_dir_other[OF raised(1) marker_not_backup_prefix] raised(2)
    show ?thesis by simp
  next
    case (returned a w2)
    from ensure_dir_frame[OF returned(1)] have
      s2: "s3 w2 = s3 w" "shutil_ZipFile w2 = shutil_ZipFile w"
        "clock w2 = clock w" "ticks w2 = ticks w"
      by auto
    note f2 = ensure_dir_other[OF returned(1) marker_not_backup_prefix]
    let ?w4 = "w2\<lparr>ticks := Suc (ticks w2),
                   stdout := stdout w2 @ [MsgZipping (length nf) ?zp]\<rparr>"
    have z: "create_zip nf ?zp ?w4 =
               (Inl AttributeError, ?w4\<lparr>calls := calls ?w4 @ [CreateZip nf ?zp]\<rparr>)"
      by (rule create_zip_no_ZipFile) (simp add: s2 stock)
    from returned(2) have "(r, w') = (Inl AttributeError, ?w4\<lparr>calls := calls ?w4 @ [CreateZip nf ?zp]\<rparr>)"
      by (simp add: bind_now bind_print s2 py_bind_def[of "create_zip _ _"] z[unfolded s2])
    then have "r = Inl AttributeError" "s3 w' = s3 w2" "fs w' = fs w2" by simp_all
    with s2 f2 show ?thesis by simp
  qed
qed

text \<open>When the marker update raises, the file system is as before it.\<close>

lemma write_file_Inr_dir:
  assumes "write_file p d w = (Inr u, w')"
  shows "p \<noteq> []" and "is_dir (fs w) (butlast p)"
  using assms by (auto simp: write_file_def split: if_splits)

lemma update_last_run_time_raises:
  assumes "update_last_run_time w = (Inl e, w')"
  shows "fs w' = fs w"
proof -
  let ?w0 = "w\<lparr>calls := calls w @ [UpdateLastRunTime]\<rparr>"
  from assms have "py_bind (write_file LOG_FILE (Text []))
      (\<lambda>_. py_bind datetime_now (\<lambda>now. write_file LOG_FILE (Text (isoformat now)))) ?w0
       = (Inl e, w')"
    by (simp add: update_last_run_time_def py_bind_def[of "log_call _"] log_call_def)
  then show ?thesis
  proof (cases rule: py_bind_cases)
    case (raised e')
    from write_file_frame[OF raised(1)] show ?thesis by auto
  next
    case (returned a w1)
    from write_file_frame[OF returned(1)]
    have w1: "w1 = ?w0\<lparr>fs := AList.update LOG_FILE (RegularFile (clock w (ticks w)) (Text [])) (fs w)\<rparr>"
      by auto
    from write_file_Inr_dir[OF returned(1)] have dir: "is_dir (fs w) (butlast LOG_FILE)" by simp
    have ne: "butlast LOG_FILE \<noteq> LOG_FILE" by (simp add: LOG_FILE_def)
    let ?w2 = "w1\<lparr>ticks := Suc (ticks w1)\<rparr>"
    have "is_dir (fs ?w2) (butlast LOG_FILE)"
      using dir ne by (simp add: w1 is_dir_def update_conv')
    moreover have "map_of (fs ?w2) LOG_FILE \<noteq> Some Directory"
      by (simp add: w1 update_conv')
    moreover have "LOG_FILE \<noteq> []" by (simp add: LOG_FILE_def)
    ultimately have "fst (write_file LOG_FILE (Text (isoformat (clock w1 (ticks w1)))) ?w2) = Inr ()"
      by (simp add: write_file_def)
    moreover from returned(2) have
      "write_file LOG_FILE (Text (isoformat (clock w1 (ticks w1)))) ?w2 = (Inl e, w')"
      by (simp add: bind_now)
    ultimately show ?thesis by simp
  qed
qed

lemma finish_steps_raises:
  assumes run: "finish_steps w = (Inl e, w')"
    and d: "distinct (map fst (fs w))"
    and c: "sub_days (clock w (ticks w)) RETENTION_DAYS = Inr cutoff"
  shows "map_of (fs w') LOG_FILE = map_of (fs w) LOG_FILE"
proof -
  let ?rm = "filter (is_old (fs w) cutoff) (walk_files (fs w) LOCAL_DIR)"
  let ?w1 = "w\<lparr>stdout := stdout w @ [MsgDeletingOlder RETENTION_DAYS]\<rparr>"
  let ?w2 = "?w1\<lparr>fs := fold AList.delete ?rm (fs w), ticks := Suc (ticks w),
                 stdout := stdout ?w1 @ map MsgDeletedOld ?rm,
                 calls := calls w @ DeleteOldFiles LOCAL_DIR RETENTION_DAYS # map OsRemove ?rm\<rparr>"
  have del: "delete_old_files LOCAL_DIR RETENTION_DAYS ?w1 = (Inr (), ?w2)"
    using delete_old_files_eq[of ?w1 RETENTION_DAYS cutoff LOCAL_DIR] d c by simp
  from run have "py_bind update_last_run_time (\<lambda>_. print MsgCompleted) ?w2 = (Inl e, w')"
    by (simp add: finish_steps_def bind_print py_bind_def[of "delete_old_files _ _"] del)
  then have "update_last_run_time ?w2 = (Inl e, w')"
    by (cases rule: py_bind_cases) (auto simp: print_def)
  from update_last_run_time_raises[OF this] have "fs w' = fold AList.delete ?rm (fs w)" by simp
  moreover have "LOG_FILE \<notin> set ?rm"
    by (auto simp: walk_files_def LOG_FILE_def LOCAL_DIR_def split: if_splits)
  ultimately show ?thesis by (auto simp: map_of_fold_delete)
qed

lemma finish_steps_returns:
  assumes fin: "finish_steps w = (Inr u, w')"
  shows "\<exists>m. map_of (fs w') LOG_FILE =
               Some (RegularFile m (Text (isoformat (clock w' (ticks w' - 1)))))"
proof -
  from fin[unfolded finish_steps_def] obtain w5 w6 where
    u: "update_last_run_time w5 = (Inr (), w6)" and p: "print MsgCompleted w6 = (Inr (), w')"
    by (auto elim!: py_bind_cases)
  from update_last_run_time_Inr[OF u] obtain m where
    "map_of (fs w6) LOG_FILE = Some (RegularFile m (Text (isoformat (clock w5 (ticks w5)))))"
    "ticks w6 = Suc (ticks w5)" "clock w6 = clock w5" by blast
  moreover from p have "w' = w6\<lparr>stdout := stdout w6 @ [MsgCompleted]\<rparr>"
    by (simp add: print_def)
  ultimately show ?thesis by simp
qed

text \<open>The runs on the sample worlds, evaluated.\<close>

lemmas script_defs = main_def get_last_run_time_def update_last_run_time_def get_new_files_def
  create_zip_def upload_to_s3_def delete_old_files_def zip_name_def object_key_def
lemmas parse_defs = fromisoformat_def parse_date_def parse_time_def parse_fraction_def parse_int_def
  digit_val_def DIGITS_def strip_def is_space_def
lemmas fmt_defs = isoformat_def strftime_compact_def strftime_date_def zpad2 zpad4 zpad6
  digit_char_def DIGITS_def
lemmas run_defs = script_defs py_defs const_defs fs_defs ex_defs cal_defs parse_defs fmt_defs
  ex_zipfile_added_def ex_no_changes_def t_recent_def ex_zip_def ex_key_def

lemma run_ex_world:
  "main ex_world =
     (Inl AttributeError,
      ex_world\<lparr>ticks := 1,
                stdout := [MsgLastRunTime t_marker, MsgZipping 1 ex_zip],
                calls := [GetLastRunTime, GetNewFiles LOCAL_DIR,
                          CreateZip [LOCAL_DIR @ [''app.cfg'']] ex_zip]\<rparr>)"
  by (simp add: run_defs)

lemma run_ex_zipfile_added:
  "main ex_zipfile_added =
     (Inr (),
      ex_zipfile_added\<lparr>
        fs := ex_tree_pruned @
          [(BACKUP_DIR, Directory),
           (LOG_FILE, RegularFile (ex_clock 4) (Text ''2024-03-10T01:02:06''))],
        ticks := 4,
        stdout := [MsgLastRunTime t_marker, MsgZipping 1 ex_zip, MsgUploading ex_zip,
                   MsgNoCredentials, MsgDeletingZip ex_zip, MsgDeletingOlder 15,
                   MsgDeletedOld (LOCAL_DIR @ [''old'', ''legacy.cfg'']), MsgCompleted],
        calls := [GetLastRunTime, GetNewFiles LOCAL_DIR,
                  CreateZip [LOCAL_DIR @ [''app.cfg'']] ex_zip,
                  UploadToS3 ex_zip S3_BUCKET ex_key, S3UploadFile ex_zip S3_BUCKET ex_key,
                  OsRemove ex_zip, DeleteOldFiles LOCAL_DIR 15,
                  OsRemove (LOCAL_DIR @ [''old'', ''legacy.cfg'']), UpdateLastRunTime]\<rparr>)"
  by (simp add: run_defs ex_tree_pruned_def)

lemma run_ex_no_changes:
  "main ex_no_changes =
     (Inr (),
      ex_no_changes\<lparr>
        fs := ex_tree_pruned @
          [(BACKUP_DIR, Directory),
           (LOG_FILE, RegularFile (ex_clock 2) (Text ''2024-03-10T01:02:04''))],
        ticks := 2,
        stdout := [MsgLastRunTime t_recent, MsgNoNewFiles, MsgDeletingOlder 15,
                   MsgDeletedOld (LOCAL_DIR @ [''old'', ''legacy.cfg'']), MsgCompleted],
        calls := [GetLastRunTime, GetNewFiles LOCAL_DIR, DeleteOldFiles LOCAL_DIR 15,
                  OsRemove (LOCAL_DIR @ [''old'', ''legacy.cfg'']), UpdateLastRunTime]\<rparr>)"
  by (simp add: run_defs ex_tree_pruned_def)

lemma ex_clock_cutoff: "sub_days (ex_clock n) RETENTION_DAYS = Inr (t_cutoff\<lparr>second := min (3 + n) 59\<rparr>)"
  by (simp add: ex_defs cal_defs RETENTION_DAYS_def)

lemma count_step:
  "length (filter (\<lambda>c. step_of c = Some s) cs) = length (filter (\<lambda>x. x = s) (steps_of cs))"
  by (induction cs) (auto split: option.splits)

lemma distinct_count_le_one: "distinct xs \<Longrightarrow> length (filter (\<lambda>x. x = s) xs) \<le> 1"
proof (induction xs)
  case Nil
  then show ?case by simp
next
  case (Cons a xs)
  show ?case
  proof (cases "a = s")
    case True
    with Cons.prems have "s \<notin> set xs" by simp
    then have "filter (\<lambda>x. x = s) xs = []" by (auto simp: filter_empty_conv)
    with True show ?thesis by simp
  next
    case False
    with Cons show ?thesis by simp
  qed
qed

section \<open>The order of the steps\<close>

text \<open>
  Claim C6. Whatever the world and however the run ends, the steps that a run of
  \<^verbatim>\<open>main\<close> adds to the call log are a subsequence of: read the marker, enumerate the
  changed files, create the archive, upload it (entering \<^verbatim>\<open>upload_to_s3\<close>, then the
  transfer call itself), prune, update the marker. So no step comes before one listed
  earlier, and no step occurs twice.
\<close>

theorem main_steps_in_order:
  "\<exists>cs. calls (snd (main w)) = calls w @ cs \<and> subseq (steps_of cs) run_order \<and>
        distinct (steps_of cs)"
proof -
  from emitsD[OF seg_main, of w] obtain cs where
    cs: "calls (snd (main w)) = calls w @ cs" "seg 0 7 cs" by blast
  have s: "subseq (steps_of cs) run_order"
    using cs(2) by (simp add: seg_def run_order_def)
  have "distinct run_order" by (simp add: run_order_def)
  with s have "distinct (steps_of cs)" by (rule subseq_keeps_distinct)
  with cs(1) s show ?thesis by blast
qed

text \<open>The run on the sample world.\<close>

theorem main_steps_in_order_witness:
  "\<exists>cs. calls (snd (main ex_world)) = calls ex_world @ cs \<and>
        subseq (steps_of cs) run_order \<and> distinct (steps_of cs)"
  by (rule main_steps_in_order)

text \<open>
  Claim C7. In every run the transfer call \<^verbatim>\<open>upload_file\<close> is made at most once, and
  \<^verbatim>\<open>create_zip\<close> is entered at most once, whatever the number of files selected.
\<close>

theorem at_most_one_upload:
  "\<exists>cs. calls (snd (main w)) = calls w @ cs \<and>
        length (filter (\<lambda>c. step_of c = Some Transfer) cs) \<le> 1 \<and>
        length (filter (\<lambda>c. step_of c = Some CreateArchive) cs) \<le> 1"
proof -
  from emitsD[OF seg_main, of w] obtain cs where
    cs: "calls (snd (main w)) = calls w @ cs" "seg 0 7 cs" by blast
  have "subseq (steps_of cs) run_order"
    using cs(2) by (simp add: seg_def run_order_def)
  moreover have "distinct run_order" by (simp add: run_order_def)
  ultimately have d: "distinct (steps_of cs)" by (rule subseq_keeps_distinct)
  have "length (filter (\<lambda>c. step_of c = Some s) cs) \<le> 1" for s
    using distinct_count_le_one[OF d, of s] by (simp add: count_step)
  with cs(1) show ?thesis by blast
qed

text \<open>The same for the sample world.\<close>

theorem at_most_one_upload_witness:
  "\<exists>cs. calls (snd (main ex_world)) = calls ex_world @ cs \<and>
        length (filter (\<lambda>c. step_of c = Some Transfer) cs) \<le> 1 \<and>
        length (filter (\<lambda>c. step_of c = Some CreateArchive) cs) \<le> 1"
  by (rule at_most_one_upload)

section \<open>Runs without new files\<close>

text \<open>
  Claim C10. When the marker can be read and no file below \<open>LOCAL_DIR\<close> is newer than
  it, the calls of the run are: read the marker, enumerate, prune (with the removals of
  the loop), update the marker. So \<^verbatim>\<open>os.makedirs\<close>, \<^verbatim>\<open>create_zip\<close> and the upload are not
  called, while the pruning step and the marker update are. The bucket is unchanged,
  what is at \<open>BACKUP_DIR\<close> is unchanged (no directory is created), and every archive on
  disk after the run was there before it.
\<close>

theorem no_new_files_run:
  assumes d: "distinct (map fst (fs w))"
    and g: "get_last_run_time w = (Inr t, w1)"
    and n: "fst (get_new_files LOCAL_DIR t w1) = Inr []"
    and c: "sub_days (clock w (ticks w1)) RETENTION_DAYS = Inr cutoff"
  shows "\<exists>rm. calls (snd (main w)) =
                 calls w @ [GetLastRunTime, GetNewFiles LOCAL_DIR,
                            DeleteOldFiles LOCAL_DIR RETENTION_DAYS] @
                 map OsRemove rm @ [UpdateLastRunTime] \<and>
               s3 (snd (main w)) = s3 w \<and>
               map_of (fs (snd (main w))) BACKUP_DIR = map_of (fs w) BACKUP_DIR \<and>
               (\<forall>p m ms. map_of (fs (snd (main w))) p = Some (RegularFile m (Archive ms)) \<longrightarrow>
                          map_of (fs w) p = Some (RegularFile m (Archive ms)))"
proof -
  obtain r w' where run: "main w = (r, w')" by (cases "main w")
  let ?sel = "filter (\<lambda>p. \<exists>m. file_mtime (fs w) p = Some m \<and> datetime_lt t m)
                 (walk_files (fs w) LOCAL_DIR)"
  from get_last_run_time_frame[OF g] obtain n1 where
    w1: "w1 = w\<lparr>ticks := n1, calls := calls w @ [GetLastRunTime]\<rparr>" by blast
  have d1: "distinct (map fst (fs w1))" using d by (simp add: w1)
  from get_new_files_eq[OF d1, of LOCAL_DIR t] n have sel: "?sel = []" by (simp add: w1)
  let ?w4 = "w\<lparr>ticks := ticks w1,
                calls := calls w @ [GetLastRunTime, GetNewFiles LOCAL_DIR],
                stdout := stdout w @ [MsgLastRunTime t, MsgNoNewFiles]\<rparr>"
  from main_after_selection[OF run d] g w1 sel
  have "py_bind (print MsgNoNewFiles) (\<lambda>_. finish_steps)
          (w\<lparr>ticks := ticks w1, stdout := stdout w @ [MsgLastRunTime t],
             calls := calls w @ [GetLastRunTime, GetNewFiles LOCAL_DIR]\<rparr>) = (r, w')"
    by auto
  then have fin: "finish_steps ?w4 = (r, w')" by (simp add: bind_print)
  let ?rm = "filter (is_old (fs w) cutoff) (walk_files (fs w) LOCAL_DIR)"
  have d4: "distinct (map fst (fs ?w4))" using d by simp
  have c4: "sub_days (clock ?w4 (ticks ?w4)) RETENTION_DAYS = Inr cutoff"
    using c by simp
  from finish_steps_frame[OF fin d4 c4] obtain F k out where
    w': "w' = ?w4\<lparr>fs := F, ticks := k, stdout := stdout ?w4 @ out,
                   calls := calls ?w4 @ DeleteOldFiles LOCAL_DIR RETENTION_DAYS #
                     map OsRemove ?rm @ [UpdateLastRunTime]\<rparr>"
    and other: "\<forall>q. q \<noteq> LOG_FILE \<longrightarrow>
               map_of F q = (if q \<in> set ?rm then None else map_of (fs w) q)"
    and log: "map_of F LOG_FILE = map_of (fs w) LOG_FILE \<or>
            (\<exists>m s. map_of F LOG_FILE = Some (RegularFile m (Text s)))"
    by auto
  have notin: "BACKUP_DIR \<notin> set ?rm"
    by (auto simp: walk_files_def BACKUP_DIR_def LOCAL_DIR_def split: if_splits)
  have 1: "calls w' = calls w @ [GetLastRunTime, GetNewFiles LOCAL_DIR,
                            DeleteOldFiles LOCAL_DIR RETENTION_DAYS] @
                 map OsRemove ?rm @ [UpdateLastRunTime]"
    by (simp add: w')
  have 2: "s3 w' = s3 w" by (simp add: w')
  have f: "fs w' = F" by (simp add: w')
  have "BACKUP_DIR \<noteq> LOG_FILE" by (simp add: BACKUP_DIR_def LOG_FILE_def)
  with other notin have 3: "map_of (fs w') BACKUP_DIR = map_of (fs w) BACKUP_DIR"
    unfolding f by auto
  have 4: "map_of (fs w) p = Some (RegularFile m (Archive ms))"
    if a: "map_of (fs w') p = Some (RegularFile m (Archive ms))" for p m ms
  proof (cases "p = LOG_FILE")
    case True
    with log a f show ?thesis by auto
  next
    case False
    with other a f show ?thesis by (auto split: if_splits)
  qed
  from 1 2 3 4 show ?thesis unfolding run snd_conv by blast
qed

theorem no_new_files_run_witness:
  "distinct (map fst (fs ex_no_changes)) \<and>
   get_last_run_time ex_no_changes = (Inr t_recent, ex_no_changes\<lparr>calls := [GetLastRunTime]\<rparr>) \<and>
   fst (get_new_files LOCAL_DIR t_recent (ex_no_changes\<lparr>calls := [GetLastRunTime]\<rparr>)) = Inr [] \<and>
   sub_days (clock ex_no_changes (ticks (ex_no_changes\<lparr>calls := [GetLastRunTime]\<rparr>)))
      RETENTION_DAYS = Inr t_cutoff \<and>
   (\<exists>rm. calls (snd (main ex_no_changes)) =
                 calls ex_no_changes @ [GetLastRunTime, GetNewFiles LOCAL_DIR,
                            DeleteOldFiles LOCAL_DIR RETENTION_DAYS] @
                 map OsRemove rm @ [UpdateLastRunTime] \<and>
               s3 (snd (main ex_no_changes)) = s3 ex_no_changes \<and>
               map_of (fs (snd (main ex_no_changes))) BACKUP_DIR
                 = map_of (fs ex_no_changes) BACKUP_DIR)"
proof -
  have d: "distinct (map fst (fs ex_no_changes))"
    by (simp add: ex_no_changes_def ex_world_def ex_tree_def)
  have g: "get_last_run_time ex_no_changes
             = (Inr t_recent, ex_no_changes\<lparr>calls := [GetLastRunTime]\<rparr>)"
    by (simp add: get_last_run_time_def py_defs const_defs fs_defs ex_defs cal_defs parse_defs
          ex_no_changes_def t_recent_def)
  have n: "fst (get_new_files LOCAL_DIR t_recent (ex_no_changes\<lparr>calls := [GetLastRunTime]\<rparr>))
             = Inr []"
    by (simp add: get_new_files_def py_defs const_defs fs_defs ex_defs cal_defs
          ex_no_changes_def t_recent_def)
  have c: "sub_days (clock ex_no_changes (ticks (ex_no_changes\<lparr>calls := [GetLastRunTime]\<rparr>)))
      RETENTION_DAYS = Inr t_cutoff"
    by (simp add: ex_no_changes_def ex_defs cal_defs RETENTION_DAYS_def)
  from no_new_files_run[OF d g n c] d g n c show ?thesis by blast
qed

section \<open>Upload failures\<close>

text \<open>
  Claim C5. Once the client exists, \<^verbatim>\<open>upload_to_s3\<close> returns normally whatever
  \<^verbatim>\<open>upload_file\<close> raises. And in a run of \<^verbatim>\<open>main\<close> in which the transfer call is made, the
  line reporting its outcome (success, file not found, missing credentials, or the other
  exception) is printed, and the run goes on: the archive is removed, the pruning step
  runs and the marker update is called. Here each path of the file system names one
  entry, and the clock is never within 15 days of the first day of year 1.
\<close>

theorem upload_failure_does_not_abort:
  assumes d: "distinct (map fst (fs w))"
    and c: "\<forall>n. \<exists>cutoff. sub_days (clock w n) RETENTION_DAYS = Inr cutoff"
    and tr: "calls (snd (main w)) = calls w @ cs"
    and up: "S3UploadFile p b k \<in> set cs"
  shows "(\<exists>pre rm. cs = pre @ [S3UploadFile p b k, OsRemove p,
                                DeleteOldFiles LOCAL_DIR RETENTION_DAYS] @
                         map OsRemove rm @ [UpdateLastRunTime]) \<and>
         upload_report p b k (upload_fault w) \<in> set (stdout (snd (main w))) \<and>
         (\<forall>w0. client_fault w0 = None \<longrightarrow> fst (upload_to_s3 p b k w0) = Inr ())"
proof -
  obtain r w' where run: "main w = (r, w')" by (cases "main w")
  from tr run have tr': "calls w' = calls w @ cs" by simp
  have third: "\<forall>w0. client_fault w0 = None \<longrightarrow> fst (upload_to_s3 p b k w0) = Inr ()"
    by (simp add: upload_to_s3_returns)
  from main_after_selection[OF run d]
  have "(\<exists>pre rm. cs = pre @ [S3UploadFile p b k, OsRemove p,
                                DeleteOldFiles LOCAL_DIR RETENTION_DAYS] @
                         map OsRemove rm @ [UpdateLastRunTime]) \<and>
         upload_report p b k (upload_fault w) \<in> set (stdout w')"
  proof (elim disjE exE conjE)
    fix e assume "calls w' = calls w @ [GetLastRunTime]"
    with tr' have "cs = [GetLastRunTime]" by simp
    with up show ?thesis by simp
  next
    fix t w1
    let ?sel = "filter (\<lambda>p. \<exists>m. file_mtime (fs w) p = Some m \<and> datetime_lt t m)
                 (walk_files (fs w) LOCAL_DIR)"
    let ?W = "w\<lparr>ticks := ticks w1, stdout := stdout w @ [MsgLastRunTime t],
                 calls := calls w @ [GetLastRunTime, GetNewFiles LOCAL_DIR]\<rparr>"
    assume E: "py_bind (if ?sel = [] then print MsgNoNewFiles else backup_steps ?sel)
                 (\<lambda>_. finish_steps) ?W = (r, w')"
    have dW: "distinct (map fst (fs ?W))" using d by simp
    show ?thesis
    proof (cases "?sel = []")
      case True
      let ?W' = "w\<lparr>ticks := ticks w1,
                calls := calls w @ [GetLastRunTime, GetNewFiles LOCAL_DIR],
                stdout := stdout w @ [MsgLastRunTime t, MsgNoNewFiles]\<rparr>"
      from E True have fin: "finish_steps ?W' = (r, w')" by (simp add: bind_print)
      from c obtain cutoff where cw: "sub_days (clock ?W' (ticks ?W')) RETENTION_DAYS = Inr cutoff"
        by auto
      have dW': "distinct (map fst (fs ?W'))" using d by simp
      from finish_steps_frame[OF fin dW' cw] obtain rm where
        "calls w' = calls ?W' @ DeleteOldFiles LOCAL_DIR RETENTION_DAYS #
                     map OsRemove rm @ [UpdateLastRunTime]"
        by auto
      with tr' have "cs = [GetLastRunTime, GetNewFiles LOCAL_DIR] @
          DeleteOldFiles LOCAL_DIR RETENTION_DAYS # map OsRemove rm @ [UpdateLastRunTime]"
        by simp
      with up show ?thesis by auto
    next
      case False
      with E have "py_bind (backup_steps ?sel) (\<lambda>_. finish_steps) ?W = (r, w')" by simp
      then show ?thesis
      proof (cases rule: py_bind_cases)
        case (raised e)
        from backup_steps_frame[OF raised(1) dW] raised(2) obtain cs5 where
          "calls w' = calls ?W @ cs5" and no: "\<forall>c \<in> set cs5. step_of c \<noteq> Some Transfer"
          by auto
        with tr' have "cs = [GetLastRunTime, GetNewFiles LOCAL_DIR] @ cs5" by simp
        with up have "S3UploadFile p b k \<in> set cs5" by simp
        with no show ?thesis by force
      next
        case (returned a w5)
        let ?zp = "os_path_join BACKUP_DIR (zip_name (clock w (ticks w1)))"
        let ?k = "object_key (clock w (Suc (ticks w1))) (zip_name (clock w (ticks w1)))"
        let ?mk = "if exists_path (fs w) BACKUP_DIR then [] else [OsMakedirs BACKUP_DIR]"
        from backup_steps_frame[OF returned(1) dW]
        have c5: "clock w5 = clock w" and u5: "upload_fault w5 = upload_fault w"
          and calls5: "calls w5 = calls ?W @ ?mk @
             [CreateZip ?sel ?zp, UploadToS3 ?zp S3_BUCKET ?k, S3UploadFile ?zp S3_BUCKET ?k,
              OsRemove ?zp]"
          and out5: "stdout w5 = stdout ?W @
             [MsgZipping (length ?sel) ?zp, MsgUploading ?zp,
              upload_report ?zp S3_BUCKET ?k (upload_fault w), MsgDeletingZip ?zp]"
          and d5: "distinct (map fst (fs w5))"
          by simp_all
        from c c5 obtain cutoff where
          cw: "sub_days (clock w5 (ticks w5)) RETENTION_DAYS = Inr cutoff" by auto
        from finish_steps_frame[OF returned(2) d5 cw] obtain rm out where
          calls': "calls w' = calls w5 @ DeleteOldFiles LOCAL_DIR RETENTION_DAYS #
                     map OsRemove rm @ [UpdateLastRunTime]"
          and out': "stdout w' = stdout w5 @ out"
          by auto
        let ?pre = "[GetLastRunTime, GetNewFiles LOCAL_DIR] @ ?mk @
             [CreateZip ?sel ?zp, UploadToS3 ?zp S3_BUCKET ?k]"
        from tr' calls' calls5 have cs: "cs = ?pre @
             [S3UploadFile ?zp S3_BUCKET ?k, OsRemove ?zp,
              DeleteOldFiles LOCAL_DIR RETENTION_DAYS] @ map OsRemove rm @ [UpdateLastRunTime]"
          by simp
        with up have same: "p = ?zp \<and> b = S3_BUCKET \<and> k = ?k" by (auto split: if_splits)
        from out' out5 have "upload_report ?zp S3_BUCKET ?k (upload_fault w) \<in> set (stdout w')"
          by simp
        with cs same show ?thesis by blast
      qed
    qed
  qed
  with third run show ?thesis by simp
qed

theorem upload_failure_does_not_abort_witness:
  "distinct (map fst (fs ex_zipfile_added)) \<and>
   (\<forall>n. \<exists>cutoff. sub_days (clock ex_zipfile_added n) RETENTION_DAYS = Inr cutoff) \<and>
   calls (snd (main ex_zipfile_added)) = calls ex_zipfile_added @
     [GetLastRunTime, GetNewFiles LOCAL_DIR, CreateZip [LOCAL_DIR @ [''app.cfg'']] ex_zip,
      UploadToS3 ex_zip S3_BUCKET ex_key, S3UploadFile ex_zip S3_BUCKET ex_key,
      OsRemove ex_zip, DeleteOldFiles LOCAL_DIR 15,
      OsRemove (LOCAL_DIR @ [''old'', ''legacy.cfg'']), UpdateLastRunTime] \<and>
   upload_fault ex_zipfile_added = Some NoCredentialsError \<and>
   (\<exists>pre rm.
      [GetLastRunTime, GetNewFiles LOCAL_DIR, CreateZip [LOCAL_DIR @ [''app.cfg'']] ex_zip,
       UploadToS3 ex_zip S3_BUCKET ex_key, S3UploadFile ex_zip S3_BUCKET ex_key,
       OsRemove ex_zip, DeleteOldFiles LOCAL_DIR 15,
       OsRemove (LOCAL_DIR @ [''old'', ''legacy.cfg'']), UpdateLastRunTime]
      = pre @ [S3UploadFile ex_zip S3_BUCKET ex_key, OsRemove ex_zip,
               DeleteOldFiles LOCAL_DIR RETENTION_DAYS] @
        map OsRemove rm @ [UpdateLastRunTime]) \<and>
   upload_report ex_zip S3_BUCKET ex_key (upload_fault ex_zipfile_added)
     \<in> set (stdout (snd (main ex_zipfile_added))) \<and>
   client_fault ex_zipfile_added = None \<and>
   fst (upload_to_s3 ex_zip S3_BUCKET ex_key ex_zipfile_added) = Inr ()"
proof -
  have d: "distinct (map fst (fs ex_zipfile_added))"
    by (simp add: ex_zipfile_added_def ex_world_def ex_fs_distinct)
  have c: "\<forall>n. \<exists>cutoff. sub_days (clock ex_zipfile_added n) RETENTION_DAYS = Inr cutoff"
    by (simp add: ex_zipfile_added_def ex_world_def ex_clock_cutoff)
  have tr: "calls (snd (main ex_zipfile_added)) = calls ex_zipfile_added @
     [GetLastRunTime, GetNewFiles LOCAL_DIR, CreateZip [LOCAL_DIR @ [''app.cfg'']] ex_zip,
      UploadToS3 ex_zip S3_BUCKET ex_key, S3UploadFile ex_zip S3_BUCKET ex_key,
      OsRemove ex_zip, DeleteOldFiles LOCAL_DIR 15,
      OsRemove (LOCAL_DIR @ [''old'', ''legacy.cfg'']), UpdateLastRunTime]"
    by (simp add: run_ex_zipfile_added) (simp add: ex_zipfile_added_def ex_world_def)
  have f: "upload_fault ex_zipfile_added = Some NoCredentialsError"
    by (simp add: ex_zipfile_added_def)
  have cf: "client_fault ex_zipfile_added = None"
    by (simp add: ex_zipfile_added_def ex_world_def)
  from upload_failure_does_not_abort[OF d c tr, of ex_zip S3_BUCKET ex_key] d c tr f cf
  show ?thesis by simp
qed

section \<open>The marker after a run\<close>

text \<open>
  Claim C1. The marker records the last successful run. The module \<^verbatim>\<open>shutil\<close> of the
  interpreter has no attribute \<^verbatim>\<open>ZipFile\<close> (see the archive step below). Then a run that ends
  in an exception leaves the entry of the marker file exactly as it was, and the bucket
  too. A run that returns normally has written to the marker the ISO format of the time
  it read last from the clock, and it is a run that selected no file: its calls are read
  the marker, enumerate, prune (with the removals of the loop) and update the marker, so
  there was no archive, and no upload that could fail. So a run that selected files, for
  which an upload was due, never returns normally and never moves the marker. Here each
  path of the file system names one entry, and the clock is never within 15 days of the
  first day of year 1.
\<close>

theorem marker_records_successful_run:
  assumes stock: "\<not> shutil_ZipFile w"
    and d: "distinct (map fst (fs w))"
    and c: "\<forall>n. \<exists>cutoff. sub_days (clock w n) RETENTION_DAYS = Inr cutoff"
  shows "case main w of
           (Inl e, w') \<Rightarrow>
             map_of (fs w') LOG_FILE = map_of (fs w) LOG_FILE \<and> s3 w' = s3 w
         | (Inr u, w') \<Rightarrow>
             (\<exists>m. map_of (fs w') LOG_FILE =
                    Some (RegularFile m (Text (isoformat (clock w' (ticks w' - 1)))))) \<and>
             (\<exists>t w1. get_last_run_time w = (Inr t, w1) \<and>
                     fst (get_new_files LOCAL_DIR t w1) = Inr []) \<and>
             (\<exists>rm. calls w' = calls w @
                      [GetLastRunTime, GetNewFiles LOCAL_DIR,
                       DeleteOldFiles LOCAL_DIR RETENTION_DAYS] @
                      map OsRemove rm @ [UpdateLastRunTime]) \<and>
             s3 w' = s3 w"
proof -
  obtain r w' where run: "main w = (r, w')" by (cases "main w")
  from main_after_selection[OF run d]
  have "case (r, w') of
           (Inl e, w') \<Rightarrow>
             map_of (fs w') LOG_FILE = map_of (fs w) LOG_FILE \<and> s3 w' = s3 w
         | (Inr u, w') \<Rightarrow>
             (\<exists>m. map_of (fs w') LOG_FILE =
                    Some (RegularFile m (Text (isoformat (clock w' (ticks w' - 1)))))) \<and>
             (\<exists>t w1. get_last_run_time w = (Inr t, w1) \<and>
                     fst (get_new_files LOCAL_DIR t w1) = Inr []) \<and>
             (\<exists>rm. calls w' = calls w @
                      [GetLastRunTime, GetNewFiles LOCAL_DIR,
                       DeleteOldFiles LOCAL_DIR RETENTION_DAYS] @
                      map OsRemove rm @ [UpdateLastRunTime]) \<and>
             s3 w' = s3 w"
  proof (elim disjE exE conjE)
    fix e assume r: "r = Inl e" and g: "get_last_run_time w = (Inl e, w')"
    from get_last_run_time_frame[OF g] obtain n where
      "w' = w\<lparr>ticks := n, calls := calls w @ [GetLastRunTime]\<rparr>" by blast
    then have "fs w' = fs w" "s3 w' = s3 w" by simp_all
    with r show ?thesis by simp
  next
    fix t and w1 :: world
    let ?sel = "filter (\<lambda>p. \<exists>m. file_mtime (fs w) p = Some m \<and> datetime_lt t m)
                 (walk_files (fs w) LOCAL_DIR)"
    let ?W = "w\<lparr>ticks := ticks w1, stdout := stdout w @ [MsgLastRunTime t],
                 calls := calls w @ [GetLastRunTime, GetNewFiles LOCAL_DIR]\<rparr>"
    assume g: "get_last_run_time w = (Inr t, w1)"
      and E: "py_bind (if ?sel = [] then print MsgNoNewFiles else backup_steps ?sel)
                 (\<lambda>_. finish_steps) ?W = (r, w')"
    from get_last_run_time_frame[OF g] obtain n1 where
      w1: "w1 = w\<lparr>ticks := n1, calls := calls w @ [GetLastRunTime]\<rparr>" by blast
    have d1: "distinct (map fst (fs w1))" using d by (simp add: w1)
    show ?thesis
    proof (cases "?sel = []")
      case True
      let ?W' = "w\<lparr>ticks := ticks w1,
                calls := calls w @ [GetLastRunTime, GetNewFiles LOCAL_DIR],
                stdout := stdout w @ [MsgLastRunTime t, MsgNoNewFiles]\<rparr>"
      from E True have fin: "finish_steps ?W' = (r, w')" by (simp add: bind_print)
      from c obtain cutoff where
        cw: "sub_days (clock ?W' (ticks ?W')) RETENTION_DAYS = Inr cutoff" by auto
      have dW': "distinct (map fst (fs ?W'))" using d by simp
      from finish_steps_frame[OF fin dW' cw] obtain F n out rm where
        w': "w' = ?W'\<lparr>fs := F, ticks := n, stdout := stdout ?W' @ out,
                   calls := calls ?W' @ DeleteOldFiles LOCAL_DIR RETENTION_DAYS #
                     map OsRemove rm @ [UpdateLastRunTime]\<rparr>"
        by blast
      have s: "s3 w' = s3 w" by (subst w') simp
      have cl: "calls w' = calls w @ [GetLastRunTime, GetNewFiles LOCAL_DIR,
                       DeleteOldFiles LOCAL_DIR RETENTION_DAYS] @
                      map OsRemove rm @ [UpdateLastRunTime]"
        by (subst w') simp
      show ?thesis
      proof (cases r)
        case (Inl e)
        with fin have "finish_steps ?W' = (Inl e, w')" by simp
        from finish_steps_raises[OF this dW' cw] s Inl show ?thesis by simp
      next
        case (Inr u)
        with fin have "finish_steps ?W' = (Inr u, w')" by simp
        note m = finish_steps_returns[OF this]
        from get_new_files_eq[OF d1, of LOCAL_DIR t] True
        have "fst (get_new_files LOCAL_DIR t w1) = Inr []" by (simp add: w1)
        with g have "\<exists>t w1. get_last_run_time w = (Inr t, w1) \<and>
                     fst (get_new_files LOCAL_DIR t w1) = Inr []" by blast
        with m cl s Inr show ?thesis by auto
      qed
    next
      case False
      with E have "py_bind (backup_steps ?sel) (\<lambda>_. finish_steps) ?W = (r, w')" by simp
      then show ?thesis
      proof (cases rule: py_bind_cases)
        case (raised e)
        from backup_steps_no_ZipFile[OF raised(1)] stock raised(2)
        show ?thesis by simp
      next
        case (returned a w5)
        from backup_steps_no_ZipFile[OF returned(1)] stock have False by simp
        then show ?thesis ..
      qed
    qed
  qed
  with run show ?thesis by simp
qed

text \<open>The two sample runs: one file is newer than the marker of 1 March, and the run ends in
  \<^verbatim>\<open>AttributeError\<close> with the marker unchanged; no file is newer than the marker of 9 March,
  and the run completes and writes the time of its marker update.\<close>

theorem marker_records_successful_run_witness:
  "\<not> shutil_ZipFile ex_world \<and> distinct (map fst (fs ex_world)) \<and>
   (\<forall>n. \<exists>cutoff. sub_days (clock ex_world n) RETENTION_DAYS = Inr cutoff) \<and>
   fst (main ex_world) = Inl AttributeError \<and>
   map_of (fs ex_world) LOG_FILE = Some (RegularFile t_marker (Text ''2024-03-01T12:00:00'')) \<and>
   map_of (fs (snd (main ex_world))) LOG_FILE = map_of (fs ex_world) LOG_FILE \<and>
   s3 (snd (main ex_world)) = s3 ex_world \<and>
   \<not> shutil_ZipFile ex_no_changes \<and> distinct (map fst (fs ex_no_changes)) \<and>
   (\<forall>n. \<exists>cutoff. sub_days (clock ex_no_changes n) RETENTION_DAYS = Inr cutoff) \<and>
   fst (main ex_no_changes) = Inr () \<and>
   map_of (fs ex_no_changes) LOG_FILE = Some (RegularFile t_marker (Text ''2024-03-09T00:00:00'')) \<and>
   (\<exists>m. map_of (fs (snd (main ex_no_changes))) LOG_FILE =
          Some (RegularFile m (Text (isoformat (ex_clock 1))))) \<and>
   isoformat (ex_clock 1) = ''2024-03-10T01:02:04'' \<and>
   (\<exists>t w1. get_last_run_time ex_no_changes = (Inr t, w1) \<and>
           fst (get_new_files LOCAL_DIR t w1) = Inr []) \<and>
   (\<exists>rm. calls (snd (main ex_no_changes)) = calls ex_no_changes @
            [GetLastRunTime, GetNewFiles LOCAL_DIR, DeleteOldFiles LOCAL_DIR RETENTION_DAYS] @
            map OsRemove rm @ [UpdateLastRunTime]) \<and>
   s3 (snd (main ex_no_changes)) = s3 ex_no_changes"
proof -
  have s1: "\<not> shutil_ZipFile ex_world" by (simp add: ex_world_def)
  have d1: "distinct (map fst (fs ex_world))" by (simp add: ex_world_def ex_fs_distinct)
  have c1: "\<forall>n. \<exists>cutoff. sub_days (clock ex_world n) RETENTION_DAYS = Inr cutoff"
    by (simp add: ex_world_def ex_clock_cutoff)
  have r1: "fst (main ex_world) = Inl AttributeError" by (simp add: run_ex_world)
  have m1: "map_of (fs ex_world) LOG_FILE =
              Some (RegularFile t_marker (Text ''2024-03-01T12:00:00''))"
    by (simp add: ex_world_def ex_fs_def ex_tree_def LOG_FILE_def)
  have s2: "\<not> shutil_ZipFile ex_no_changes" by (simp add: ex_no_changes_def ex_world_def)
  have d2: "distinct (map fst (fs ex_no_changes))"
    by (simp add: ex_no_changes_def ex_world_def ex_tree_def)
  have c2: "\<forall>n. \<exists>cutoff. sub_days (clock ex_no_changes n) RETENTION_DAYS = Inr cutoff"
    by (simp add: ex_no_changes_def ex_world_def ex_clock_cutoff)
  have r2: "fst (main ex_no_changes) = Inr ()" by (simp add: run_ex_no_changes)
  have m2: "map_of (fs ex_no_changes) LOG_FILE =
              Some (RegularFile t_marker (Text ''2024-03-09T00:00:00''))"
    by (simp add: ex_no_changes_def ex_world_def ex_tree_def LOG_FILE_def)
  have k2: "clock (snd (main ex_no_changes)) (ticks (snd (main ex_no_changes)) - 1) = ex_clock 1"
    by (simp add: run_ex_no_changes) (simp add: ex_no_changes_def ex_world_def)
  have iso: "isoformat (ex_clock 1) = ''2024-03-10T01:02:04''"
    by (simp add: fmt_defs ex_defs)
  from marker_records_successful_run[OF s1 d1 c1] r1
  have a: "map_of (fs (snd (main ex_world))) LOG_FILE = map_of (fs ex_world) LOG_FILE \<and>
           s3 (snd (main ex_world)) = s3 ex_world"
    by (cases "main ex_world") simp
  from marker_records_successful_run[OF s2 d2 c2] r2 k2
  have b: "(\<exists>m. map_of (fs (snd (main ex_no_changes))) LOG_FILE =
                 Some (RegularFile m (Text (isoformat (ex_clock 1))))) \<and>
           (\<exists>t w1. get_last_run_time ex_no_changes = (Inr t, w1) \<and>
                   fst (get_new_files LOCAL_DIR t w1) = Inr []) \<and>
           (\<exists>rm. calls (snd (main ex_no_changes)) = calls ex_no_changes @
               [GetLastRunTime, GetNewFiles LOCAL_DIR, DeleteOldFiles LOCAL_DIR RETENTION_DAYS] @
               map OsRemove rm @ [UpdateLastRunTime]) \<and>
           s3 (snd (main ex_no_changes)) = s3 ex_no_changes"
    by (cases "main ex_no_changes") simp
  from s1 d1 c1 r1 m1 a s2 d2 c2 r2 m2 b iso show ?thesis by blast
qed

section \<open>The archive step\<close>

text \<open>
  Claim C3 says that a run with at least one modified file archives the selected files
  and uploads the archive. The script calls \<^verbatim>\<open>shutil.ZipFile\<close>, and it does not import
  \<^verbatim>\<open>zipfile\<close>. The module \<^verbatim>\<open>shutil\<close> of the standard library has no attribute \<^verbatim>\<open>ZipFile\<close>
  (it imports \<^verbatim>\<open>zipfile\<close> only inside two of its functions), so in the sample world, with
  one file newer than the marker, \<^verbatim>\<open>create_zip\<close> raises \<^verbatim>\<open>AttributeError\<close>: the run ends
  there, with no archive written, no transfer call, an unchanged file system and an empty
  bucket.
\<close>

theorem main_fails_under_stock_shutil:
  "\<not> shutil_ZipFile ex_world \<and>
   get_new_files LOCAL_DIR t_marker ex_world =
     (Inr [LOCAL_DIR @ [''app.cfg'']], ex_world\<lparr>calls := [GetNewFiles LOCAL_DIR]\<rparr>) \<and>
   fst (main ex_world) = Inl AttributeError \<and>
   calls (snd (main ex_world)) =
     [GetLastRunTime, GetNewFiles LOCAL_DIR, CreateZip [LOCAL_DIR @ [''app.cfg'']] ex_zip] \<and>
   fs (snd (main ex_world)) = fs ex_world \<and>
   s3 (snd (main ex_world)) = []"
proof -
  have "get_new_files LOCAL_DIR t_marker ex_world =
     (Inr [LOCAL_DIR @ [''app.cfg'']], ex_world\<lparr>calls := [GetNewFiles LOCAL_DIR]\<rparr>)"
    by (simp add: get_new_files_def py_defs const_defs fs_defs ex_defs cal_defs)
  moreover have "\<not> shutil_ZipFile ex_world" "s3 ex_world = []"
    by (simp_all add: ex_world_def)
  ultimately show ?thesis
    by (simp add: run_ex_world)
qed

end
